theory Spec2Isabelle
  imports Main "HOL-Library.AList"
begin

section \<open>JavaScript values\<close>

text \<open>
  The extension reads three kinds of JSON documents: the live credential file, the live
  configuration file and the registry (\<open>sequence.json\<close>). A parsed document is a value of
  \<open>json\<close>; an object keeps its properties in enumeration order, as an association list.
  Numbers are integers: no number of these documents is read arithmetically except the
  account numbers, which have a type of their own below.

  One value the program handles is not a parsed one: a property read on a string can
  give a method of \<open>String.prototype\<close>. \<open>JFun n\<close> is that built-in function object,
  \<open>String.prototype.n\<close>; no document holds one.
\<close>

datatype json =
    JNull
  | JBool bool
  | JNum int
  | JStr string
  | JArr "json list"
  | JObj "(string \<times> json) list"
  | JFun string

text \<open>\<open>if (v)\<close>, \<open>!v\<close>, \<open>v || w\<close>: JavaScript's truthiness.\<close>

fun truthy :: "json \<Rightarrow> bool" where
  "truthy JNull = False"
| "truthy (JBool b) = b"
| "truthy (JNum n) = (n \<noteq> 0)"
| "truthy (JStr s) = (s \<noteq> [])"
| "truthy (JArr xs) = True"
| "truthy (JObj kvs) = True"
| "truthy (JFun f) = True"

text \<open>
  \<open>v?.k\<close> and, on a value that is not \<open>null\<close>, \<open>v.k\<close>, for the property names this
  program reads: \<open>claudeAiOauth\<close>, \<open>accessToken\<close>, \<open>idToken\<close>, \<open>sub\<close>, \<open>email\<close> and
  \<open>oauthAccount\<close>. \<open>None\<close> is \<open>undefined\<close>. A parsed object has the properties of its
  own, and no prototype has one of these names except \<open>String.prototype\<close>, which has the
  method \<open>sub\<close>: on a string, \<open>v.sub\<close> is that function.
\<close>

fun get_prop :: "json \<Rightarrow> string \<Rightarrow> json option" where
  "get_prop (JObj kvs) k = map_of kvs k"
| "get_prop (JStr s) k = (if k = ''sub'' then Some (JFun ''sub'') else None)"
| "get_prop _ k = None"

text \<open>
  \<open>o.k = v\<close> followed by \<open>JSON.stringify(o)\<close>, for a parsed \<open>o\<close>: an object gets the
  property (in place when it has the key, last otherwise); on any other parsed value the
  assignment leaves nothing that is serialised.
\<close>

fun set_prop :: "json \<Rightarrow> string \<Rightarrow> json \<Rightarrow> json" where
  "set_prop (JObj kvs) k v = JObj (AList.update k v kvs)"
| "set_prop j k v = j"

text \<open>
  \<open>a === b\<close>: primitives compare by value, two arrays or objects that come from two
  different documents are never the same reference, and a built-in function is itself.
\<close>

fun strict_eq :: "json \<Rightarrow> json \<Rightarrow> bool" where
  "strict_eq JNull JNull = True"
| "strict_eq (JBool a) (JBool b) = (a = b)"
| "strict_eq (JNum a) (JNum b) = (a = b)"
| "strict_eq (JStr a) (JStr b) = (a = b)"
| "strict_eq (JFun a) (JFun b) = (a = b)"
| "strict_eq _ _ = False"

subsection \<open>Strings\<close>

text \<open>\<open>s.split(c)\<close>: the pieces of \<open>s\<close> between the occurrences of \<open>c\<close>.\<close>

fun split_on :: "char \<Rightarrow> string \<Rightarrow> string list" where
  "split_on c [] = [[]]"
| "split_on c (x # xs) =
     (if x = c then [] # split_on c xs
      else (case split_on c xs of [] \<Rightarrow> [[x]] | p # ps \<Rightarrow> (x # p) # ps))"

text \<open>\<open>s.startsWith(p)\<close>.\<close>

definition startsWith :: "string \<Rightarrow> string \<Rightarrow> bool" where
  "startsWith s p = (take (length p) s = p)"

text \<open>
  The decimal numeral of a natural: the key of an account in the registry, and what
  \<open>String(n)\<close> and \<open>`${n}`\<close> make of its number.
\<close>

definition digit_char :: "nat \<Rightarrow> char" where
  "digit_char d = ''0123456789'' ! d"

fun string_of_nat :: "nat \<Rightarrow> string" where
  "string_of_nat n =
     (if n < 10 then [digit_char n]
      else string_of_nat (n div 10) @ [digit_char (n mod 10)])"

text \<open>The number a string of digits writes (the inverse of \<open>string_of_nat\<close>, for the proofs).\<close>

definition nat_of_digits :: "string \<Rightarrow> nat" where
  "nat_of_digits s = foldl (\<lambda>a c. 10 * a + (of_char c - 48)) 0 s"

definition string_of_int :: "int \<Rightarrow> string" where
  "string_of_int i = (if i < 0 then CHR ''-'' # string_of_nat (nat (- i)) else string_of_nat (nat i))"

fun join_comma :: "string list \<Rightarrow> string" where
  "join_comma [] = []"
| "join_comma [s] = s"
| "join_comma (s # t # ss) = s @ CHR '','' # join_comma (t # ss)"

text \<open>
  \<open>`${v}`\<close>: the string a template literal makes of a value. An integer below \<open>2^53\<close> in
  magnitude is written by its decimal digits. \<open>None\<close> is a text this model does not
  determine: that of a larger number (JavaScript writes the shortest digits that read back
  as the same double, and an exponent from \<open>10^21\<close> on) and that of a function.
\<close>

fun js_String :: "json \<Rightarrow> string option" where
  "js_String JNull = Some ''null''"
| "js_String (JBool b) = Some (if b then ''true'' else ''false'')"
| "js_String (JNum n) = (if \<bar>n\<bar> < 2 ^ 53 then Some (string_of_int n) else None)"
| "js_String (JStr s) = Some s"
| "js_String (JArr xs) =
     map_option join_comma (those (map (\<lambda>x. if x = JNull then Some [] else js_String x) xs))"
| "js_String (JObj kvs) = Some ''[object Object]''"
| "js_String (JFun f) = None"

subsection \<open>Paths\<close>

text \<open>
  \<open>path.join(dir, name)\<close> joins the two with \<open>/\<close> and normalises the result: an empty
  component and \<open>.\<close> are dropped, and \<open>..\<close> takes back the component before it.
  \<open>resolve\<close> does this to the components of \<open>name\<close>, keeping the ones that remain (last
  first); it gives \<open>None\<close> as soon as a \<open>..\<close> reaches above \<open>dir\<close>. \<open>child_of_join name\<close> is
  the file of the directory that the joined path names. It is \<open>None\<close> when the path names
  no file that lies in \<open>dir\<close> itself, but one below a subdirectory or outside of \<open>dir\<close>:
  a file this model does not hold.
\<close>

fun resolve :: "string list \<Rightarrow> string list \<Rightarrow> string list option" where
  "resolve kept [] = Some kept"
| "resolve kept (c # cs) =
     (if c = [] \<or> c = ''.'' then resolve kept cs
      else if c = ''..'' then (case kept of [] \<Rightarrow> None | k # ks \<Rightarrow> resolve ks cs)
      else resolve (c # kept) cs)"

definition child_of_join :: "string \<Rightarrow> string option" where
  "child_of_join name =
     (case resolve [] (split_on CHR ''/'' name) of
        Some [f] \<Rightarrow> Some f
      | _ \<Rightarrow> None)"

subsection \<open>The library\<close>

text \<open>
  The functions of Node's library the extension calls are parameters of the model:
  \<open>JSON.parse\<close> (\<open>None\<close> when it throws), \<open>JSON.stringify(v, null, 2)\<close>, the two
  directions of \<open>Buffer\<close>'s base64 codec on UTF-8 text, the base64url decoder and the hex
  digest of SHA-256. A theorem that needs a property of one of them (decoding inverts
  encoding, parsing inverts printing) states it as a hypothesis at the value concerned.
\<close>

record lib =
  JSON_parse :: "string \<Rightarrow> json option"
  JSON_stringify :: "json \<Rightarrow> string"
  base64_encode :: "string \<Rightarrow> string"
  base64_decode :: "string \<Rightarrow> string"
  base64url_decode :: "string \<Rightarrow> string"
  sha256_hex :: "string \<Rightarrow> string"

section \<open>Identity resolver\<close>

text \<open>
  \<open>getToken\<close>: \<open>JSON.parse(credsText)?.claudeAiOauth?.accessToken || null\<close>, and
  \<open>null\<close> when parsing throws.
\<close>

definition getToken :: "lib \<Rightarrow> string \<Rightarrow> json option" where
  "getToken L credsText =
     (case JSON_parse L credsText of
        None \<Rightarrow> None
      | Some j \<Rightarrow>
          (case Option.bind (get_prop j ''claudeAiOauth'') (\<lambda>oauth. get_prop oauth ''accessToken'') of
             None \<Rightarrow> None
           | Some token \<Rightarrow> if truthy token then Some token else None))"

text \<open>
  \<open>decodeJwtPayload\<close>: a token that is not a string has no \<open>split\<close>, and the
  \<open>TypeError\<close> is caught like a parse error. \<open>None\<close> is the \<open>null\<close> returned.
\<close>

definition decodeJwtPayload :: "lib \<Rightarrow> json \<Rightarrow> json option" where
  "decodeJwtPayload L token =
     (case token of
        JStr t \<Rightarrow>
          (let parts = split_on CHR ''.'' t in
           if length parts \<noteq> 3 then None
           else JSON_parse L (base64url_decode L (parts ! 1)))
      | _ \<Rightarrow> None)"

text \<open>
  \<open>getSubFromCreds\<close>: the payload's \<open>sub\<close> when it is truthy; otherwise \<open>"fp-"\<close> and
  the first 24 hex digits of the token's SHA-256. \<open>createHash(...).update(token)\<close> throws
  on a token that is not a string, and the function returns \<open>null\<close>.
\<close>

definition getSubFromCreds :: "lib \<Rightarrow> string \<Rightarrow> json option" where
  "getSubFromCreds L credsText =
     (case getToken L credsText of
        None \<Rightarrow> None
      | Some token \<Rightarrow>
          (case Option.bind (decodeJwtPayload L token) (\<lambda>p. get_prop p ''sub'') of
             Some s \<Rightarrow>
               if truthy s then Some s
               else (case token of
                       JStr t \<Rightarrow> Some (JStr (''fp-'' @ take 24 (sha256_hex L t)))
                     | _ \<Rightarrow> None)
           | None \<Rightarrow>
               (case token of
                  JStr t \<Rightarrow> Some (JStr (''fp-'' @ take 24 (sha256_hex L t)))
                | _ \<Rightarrow> None)))"

text \<open>
  \<open>getEmailHintFromCreds\<close>: the \<open>email\<close> claim of the identity token when truthy, else
  that of the access token unless it is \<open>null\<close> or \<open>undefined\<close>.
\<close>

definition getEmailHintFromCreds :: "lib \<Rightarrow> string \<Rightarrow> json option" where
  "getEmailHintFromCreds L credsText =
     (case JSON_parse L credsText of
        None \<Rightarrow> None
      | Some j \<Rightarrow>
          (case get_prop j ''claudeAiOauth'' of
             None \<Rightarrow> None
           | Some oauth \<Rightarrow>
               if \<not> truthy oauth then None
               else
                 (let fromAccess =
                        (case Option.bind (Option.bind (get_prop oauth ''accessToken'') (decodeJwtPayload L))
                                (\<lambda>p. get_prop p ''email'') of
                           Some e \<Rightarrow> if e = JNull then None else Some e
                         | None \<Rightarrow> None)
                  in case get_prop oauth ''idToken'' of
                       None \<Rightarrow> fromAccess
                     | Some idToken \<Rightarrow>
                         if \<not> truthy idToken then fromAccess
                         else (case Option.bind (decodeJwtPayload L idToken) (\<lambda>p. get_prop p ''email'') of
                                 Some e \<Rightarrow> if truthy e then Some e else fromAccess
                               | None \<Rightarrow> fromAccess))))"

section \<open>Registry\<close>

text \<open>
  The registry document. The keys of \<open>accounts\<close> are decimal numerals, as the extension
  writes them, and an account is known by the natural its key writes: where the code has
  the number of an account (the argument of \<open>switchToAccount\<close>, \<open>activeAccountNumber\<close>,
  the elements of \<open>sequence\<close>), the model has the natural that \<open>String\<close> of the number
  writes, which for a number below \<open>2^53\<close> is the number itself. \<open>accounts\<close> lists the
  entries in the order \<open>Object.entries\<close> enumerates them. A record written by an earlier
  version has no \<open>sub\<close>.
\<close>

record AccountRecord =
  email :: "json option"
  sub :: "json option"
  added :: string

record registry =
  activeAccountNumber :: "nat option"
  lastUpdated :: string
  sequence :: "nat list"
  accounts :: "(nat \<times> AccountRecord) list"

text \<open>\<open>a.sub === s\<close> for a record \<open>a\<close>.\<close>

definition sub_is :: "json \<Rightarrow> AccountRecord \<Rightarrow> bool" where
  "sub_is s a = (case sub a of None \<Rightarrow> False | Some v \<Rightarrow> strict_eq v s)"

text \<open>\<open>isSaved(data, sub)\<close>.\<close>

definition isSaved :: "registry option \<Rightarrow> json option \<Rightarrow> bool" where
  "isSaved data s =
     (case data of
        None \<Rightarrow> False
      | Some d \<Rightarrow>
          (case s of
             None \<Rightarrow> False
           | Some v \<Rightarrow> truthy v \<and> list_ex (\<lambda>(k, a). sub_is v a) (accounts d)))"

text \<open>
  JavaScript computes with numbers as doubles. A natural below \<open>2^53\<close> is a double; a
  larger one is rounded to 53 significant bits, to the nearer neighbour and from the
  middle to the one whose last bit is 0. \<open>nearest_double n\<close> is what \<open>Number\<close> makes of the
  numeral of \<open>n\<close>, and \<open>nearest_double (a + b)\<close> is the sum \<open>a + b\<close> of two doubles. (A
  numeral beyond the largest double, about \<open>1.8 * 10^308\<close>, reads as \<open>Infinity\<close> in
  JavaScript; here it is rounded like any other.)
\<close>

fun bit_length :: "nat \<Rightarrow> nat" where
  "bit_length n = (if n = 0 then 0 else Suc (bit_length (n div 2)))"

definition nearest_double :: "nat \<Rightarrow> nat" where
  "nearest_double n =
     (let e = bit_length n - 53; q = n div 2 ^ e; r = n mod 2 ^ e
      in if 2 * r < 2 ^ e \<or> (2 * r = 2 ^ e \<and> even q) then q * 2 ^ e else (q + 1) * 2 ^ e)"

text \<open>\<open>nextNum(data)\<close>: \<open>Math.max(...Object.keys(data.accounts).map(Number)) + 1\<close>, or 1.\<close>

definition nextNum :: "registry \<Rightarrow> nat" where
  "nextNum data =
     (let nums = map (\<lambda>(k, a). nearest_double k) (accounts data)
      in if nums \<noteq> [] then nearest_double (Max (set nums) + 1) else 1)"

text \<open>
  \<open>data.accounts[String(num)] = rec\<close>. A key the object has keeps its place and gets the
  value. An object enumerates first its array indices (the keys below \<open>2^32 - 1\<close>), in
  ascending order, and then its other keys in the order they were added: a new key that is
  an array index takes its place among the indices, any other new key comes last.
\<close>

definition array_index :: "nat \<Rightarrow> bool" where
  "array_index k = (k < 2 ^ 32 - 1)"

fun insert_key :: "nat \<Rightarrow> AccountRecord \<Rightarrow> (nat \<times> AccountRecord) list \<Rightarrow> (nat \<times> AccountRecord) list" where
  "insert_key k v [] = [(k, v)]"
| "insert_key k v ((k', v') # al) =
     (if array_index k \<and> (k < k' \<or> \<not> array_index k') then (k, v) # (k', v') # al
      else (k', v') # insert_key k v al)"

definition set_account :: "nat \<Rightarrow> AccountRecord \<Rightarrow> (nat \<times> AccountRecord) list \<Rightarrow> (nat \<times> AccountRecord) list" where
  "set_account k v al =
     (if k \<in> set (map fst al) then map (\<lambda>(k', v'). if k' = k then (k', v) else (k', v')) al
      else insert_key k v al)"

text \<open>
  What a property that holds \<open>v\<close> reads after the document went through \<open>JSON.stringify\<close>
  and \<open>JSON.parse\<close>, as the registry does between two calls: a property whose value is a
  function is left out.
\<close>

definition stored :: "json \<Rightarrow> json option" where
  "stored v = (case v of JFun f \<Rightarrow> None | _ \<Rightarrow> Some v)"

section \<open>Blob store\<close>

text \<open>
  The files the extension touches. \<open>None\<close> is a file that does not exist. The two
  archive directories map a file name to the file's text (a directory that does not exist
  reads like an empty one: \<open>existsSync\<close> is false, \<open>readFileSync\<close> and \<open>readdirSync\<close>
  throw and are caught); two names are the same file when they are the same text. The
  registry file is held by the document it parses to:
  \<open>Some None\<close> is a file \<open>readJSON\<close> cannot parse, or whose text is \<open>null\<close>. Writes succeed:
  the model has no I/O faults except the renames of the migration, which take a predicate
  saying which of them fail.
\<close>

datatype cfg_path = CLAUDE_CONFIG_PRIMARY | CLAUDE_CONFIG_FALLBACK

record world =
  creds_file :: "string option"
  config_primary :: "string option"
  config_fallback :: "string option"
  sequence_file :: "registry option option"
  credentials_dir :: "(string \<times> string) list"
  configs_dir :: "(string \<times> string) list"

text \<open>
  The errors thrown, by their messages: \<open>Failed to read credentials\<close>,
  \<open>No active credential token found\<close>, \<open>Could not determine account identity from token\<close>,
  \<open>This account is already saved\<close>, \<open>Account-K has the same token identity\<close>,
  \<open>No managed accounts\<close>, \<open>Account-N not found\<close>, \<open>Missing backup data for Account-N\<close>,
  \<open>Invalid backup config: missing oauthAccount\<close>; and the exceptions of the runtime that
  no handler catches: a file that is not there, a rename that fails, \<open>JSON.parse\<close> on a text
  that is not JSON, a property read on \<open>null\<close>.
\<close>

datatype error =
    FailedToReadCredentials
  | NoActiveToken
  | NoIdentity
  | AlreadySaved
  | SameTokenIdentity nat
  | NoManagedAccounts
  | AccountNotFound nat
  | MissingBackupData nat
  | InvalidBackupConfig
  | ENOENT
  | EPERM
  | SyntaxError
  | TypeError

definition readJSON :: "lib \<Rightarrow> string option \<Rightarrow> json option" where
  "readJSON L file = (case file of None \<Rightarrow> None | Some t \<Rightarrow> JSON_parse L t)"

definition truthy_opt :: "json option \<Rightarrow> bool" where
  "truthy_opt v = (case v of None \<Rightarrow> False | Some j \<Rightarrow> truthy j)"

definition read_config :: "cfg_path \<Rightarrow> world \<Rightarrow> string option" where
  "read_config p w = (case p of CLAUDE_CONFIG_PRIMARY \<Rightarrow> config_primary w | CLAUDE_CONFIG_FALLBACK \<Rightarrow> config_fallback w)"

definition write_config :: "cfg_path \<Rightarrow> string \<Rightarrow> world \<Rightarrow> world" where
  "write_config p t w =
     (case p of
        CLAUDE_CONFIG_PRIMARY \<Rightarrow> w\<lparr>config_primary := Some t\<rparr>
      | CLAUDE_CONFIG_FALLBACK \<Rightarrow> w\<lparr>config_fallback := Some t\<rparr>)"

definition readCurrentCredentials :: "world \<Rightarrow> string option" where
  "readCurrentCredentials w = creds_file w"

definition writeCurrentCredentials :: "string \<Rightarrow> world \<Rightarrow> world" where
  "writeCurrentCredentials t w = w\<lparr>creds_file := Some t\<rparr>"

text \<open>
  The names of the archive files, by account number: \<open>`.creds-${num}.enc`\<close> and
  \<open>`.claude-config-${num}.json`\<close>.
\<close>

definition creds_name :: "nat \<Rightarrow> string" where
  "creds_name num = ''.creds-'' @ string_of_nat num @ ''.enc''"

definition config_name :: "nat \<Rightarrow> string" where
  "config_name num = ''.claude-config-'' @ string_of_nat num @ ''.json''"

text \<open>
  The earlier scheme, by number and email: the texts \<open>`.creds-${num}-${info.email}.enc`\<close>
  and \<open>`.claude-config-${num}-${info.email}.json`\<close> for the text \<open>t\<close> of the email, and the
  files of the archive directories that \<open>path.join\<close> makes of them (\<open>oldCreds\<close> and
  \<open>oldConfig\<close> in \<open>migrateBackupFilenames\<close>). An email with a \<open>/\<close> in it gives a path of
  several components.
\<close>

definition old_creds_text :: "nat \<Rightarrow> string \<Rightarrow> string" where
  "old_creds_text num t = ''.creds-'' @ string_of_nat num @ ''-'' @ t @ ''.enc''"

definition old_config_text :: "nat \<Rightarrow> string \<Rightarrow> string" where
  "old_config_text num t = ''.claude-config-'' @ string_of_nat num @ ''-'' @ t @ ''.json''"

definition old_creds_name :: "nat \<Rightarrow> json \<Rightarrow> string option" where
  "old_creds_name num e = Option.bind (js_String e) (\<lambda>t. child_of_join (old_creds_text num t))"

definition old_config_name :: "nat \<Rightarrow> json \<Rightarrow> string option" where
  "old_config_name num e = Option.bind (js_String e) (\<lambda>t. child_of_join (old_config_text num t))"

definition readBackupCreds :: "lib \<Rightarrow> nat \<Rightarrow> world \<Rightarrow> string option" where
  "readBackupCreds L num w =
     (case map_of (credentials_dir w) (creds_name num) of
        None \<Rightarrow> None
      | Some raw \<Rightarrow> Some (base64_decode L raw))"

definition writeBackupCreds :: "lib \<Rightarrow> nat \<Rightarrow> string \<Rightarrow> world \<Rightarrow> world" where
  "writeBackupCreds L num t w =
     w\<lparr>credentials_dir := AList.update (creds_name num) (base64_encode L t) (credentials_dir w)\<rparr>"

definition readBackupConfig :: "nat \<Rightarrow> world \<Rightarrow> string option" where
  "readBackupConfig num w = map_of (configs_dir w) (config_name num)"

definition writeBackupConfig :: "nat \<Rightarrow> string \<Rightarrow> world \<Rightarrow> world" where
  "writeBackupConfig num t w =
     w\<lparr>configs_dir := AList.update (config_name num) t (configs_dir w)\<rparr>"

definition getConfigPath :: "lib \<Rightarrow> world \<Rightarrow> cfg_path" where
  "getConfigPath L w =
     (case readJSON L (config_primary w) of
        None \<Rightarrow> CLAUDE_CONFIG_FALLBACK
      | Some d \<Rightarrow>
          if truthy d \<and> truthy_opt (get_prop d ''oauthAccount'') then CLAUDE_CONFIG_PRIMARY
          else CLAUDE_CONFIG_FALLBACK)"

definition getSeqData :: "world \<Rightarrow> registry option" where
  "getSeqData w = (case sequence_file w of None \<Rightarrow> None | Some d \<Rightarrow> d)"

definition initSequenceFile :: "string \<Rightarrow> world \<Rightarrow> world" where
  "initSequenceFile now w =
     (if sequence_file w = None
      then w\<lparr>sequence_file :=
               Some (Some \<lparr>activeAccountNumber = None, lastUpdated = now, sequence = [], accounts = []\<rparr>)\<rparr>
      else w)"

section \<open>Migration and cleanup\<close>

definition existsSync :: "(string \<times> string) list \<Rightarrow> string \<Rightarrow> bool" where
  "existsSync dir name = (map_of dir name \<noteq> None)"

text \<open>\<open>fs.renameSync\<close> inside one directory; \<open>fails\<close> says which renames the system refuses.\<close>

definition renameSync ::
  "(string \<Rightarrow> bool) \<Rightarrow> string \<Rightarrow> string \<Rightarrow> (string \<times> string) list \<Rightarrow> error + (string \<times> string) list" where
  "renameSync fails old new dir =
     (case map_of dir old of
        None \<Rightarrow> Inl ENOENT
      | Some c \<Rightarrow> if fails old then Inl EPERM else Inr (AList.update new c (AList.delete old dir)))"

text \<open>
  One of the two blocks of the loop body of \<open>migrateBackupFilenames\<close>: the rename when
  the old file exists and the new one does not, with its \<open>try { } catch { }\<close>.
\<close>

definition migrate_file ::
  "(string \<Rightarrow> bool) \<Rightarrow> string \<Rightarrow> string \<Rightarrow> (string \<times> string) list \<Rightarrow> (string \<times> string) list" where
  "migrate_file fails old new dir =
     (if existsSync dir old \<and> \<not> existsSync dir new
      then (case renameSync fails old new dir of Inl e \<Rightarrow> dir | Inr dir' \<Rightarrow> dir')
      else dir)"

text \<open>
  The loop over \<open>Object.entries(data.accounts)\<close>. The function throws nothing; the result
  is \<open>None\<close> when the loop comes to a record whose old path is not a file of its archive
  directory (or whose email has a text that is not determined here): what the loop does
  then depends on files outside the two directories.
\<close>

fun migrate_entries :: "(string \<Rightarrow> bool) \<Rightarrow> (nat \<times> AccountRecord) list \<Rightarrow> world \<Rightarrow> world option" where
  "migrate_entries fails [] w = Some w"
| "migrate_entries fails ((num, info) # rest) w =
     (case email info of
        None \<Rightarrow> migrate_entries fails rest w
      | Some e \<Rightarrow>
          if \<not> truthy e then migrate_entries fails rest w
          else
            (case (old_creds_name num e, old_config_name num e) of
               (Some oldCreds, Some oldConfig) \<Rightarrow>
                 migrate_entries fails rest
                   (w\<lparr>credentials_dir :=
                         migrate_file fails oldCreds (creds_name num) (credentials_dir w),
                       configs_dir :=
                         migrate_file fails oldConfig (config_name num) (configs_dir w)\<rparr>)
             | _ \<Rightarrow> None))"

definition migrateBackupFilenames :: "(string \<Rightarrow> bool) \<Rightarrow> registry option \<Rightarrow> world \<Rightarrow> world option" where
  "migrateBackupFilenames fails data w =
     (case data of None \<Rightarrow> Some w | Some d \<Rightarrow> migrate_entries fails (accounts d) w)"

text \<open>
  An email that has a text, and no path separator in it, neither \<open>/\<close> nor the backslash
  (which separates on a Windows host): its old path is the file of the directory that has
  the old text as its name.
\<close>

definition plain_email :: "json \<Rightarrow> bool" where
  "plain_email e =
     (case js_String e of
        None \<Rightarrow> False
      | Some t \<Rightarrow> CHR ''/'' \<notin> set t \<and> CHR 0x5C \<notin> set t)"

definition plain_emails :: "(nat \<times> AccountRecord) list \<Rightarrow> bool" where
  "plain_emails es =
     list_all (\<lambda>(num, info). case email info of None \<Rightarrow> True | Some e \<Rightarrow> truthy e \<longrightarrow> plain_email e) es"

text \<open>
  The loop of \<open>cleanupOrphanedBackups\<close> over the names \<open>readdirSync\<close> lists: a file is
  unlinked when its name starts with the prefix and is not one of the valid names.
\<close>

fun unlink_orphans ::
  "string \<Rightarrow> string list \<Rightarrow> string list \<Rightarrow> (string \<times> string) list \<Rightarrow> (string \<times> string) list" where
  "unlink_orphans pre valid [] dir = dir"
| "unlink_orphans pre valid (f # fs) dir =
     unlink_orphans pre valid fs
       (if startsWith f pre \<and> f \<notin> set valid then AList.delete f dir else dir)"

definition cleanupOrphanedBackups :: "registry \<Rightarrow> world \<Rightarrow> world" where
  "cleanupOrphanedBackups data w =
     (let validCreds = map (\<lambda>(num, a). creds_name num) (accounts data);
          validConfigs = map (\<lambda>(num, a). config_name num) (accounts data)
      in w\<lparr>credentials_dir :=
              unlink_orphans ''.creds-'' validCreds (map fst (credentials_dir w)) (credentials_dir w),
            configs_dir :=
              unlink_orphans ''.claude-config-'' validConfigs (map fst (configs_dir w)) (configs_dir w)\<rparr>)"

section \<open>Swap engine\<close>

text \<open>
  \<open>saveCurrentAccount\<close>. \<open>now\<close> is what \<open>getTimestamp()\<close> returns. The result pairs what
  the call returns or throws with the files it leaves; the registry file holds the document
  written as it is read back.
\<close>

definition saveCurrentAccount :: "lib \<Rightarrow> string \<Rightarrow> world \<Rightarrow> (error + nat) \<times> world" where
  "saveCurrentAccount L now w0 =
     (let w = initSequenceFile now w0 in
      case readCurrentCredentials w of
        None \<Rightarrow> (Inl FailedToReadCredentials, w)
      | Some credsText \<Rightarrow>
          if credsText = [] then (Inl FailedToReadCredentials, w)
          else
            (case getToken L credsText of
               None \<Rightarrow> (Inl NoActiveToken, w)
             | Some token \<Rightarrow>
                 (case getSubFromCreds L credsText of
                    None \<Rightarrow> (Inl NoIdentity, w)
                  | Some s \<Rightarrow>
                      if \<not> truthy s then (Inl NoIdentity, w)
                      else
                        (let data = getSeqData w in
                         if isSaved data (Some s) then (Inl AlreadySaved, w)
                         else
                           (case data of
                              None \<Rightarrow> (Inl TypeError, w)
                            | Some d \<Rightarrow>
                                (let num = nextNum d;
                                     configPath = getConfigPath L w
                                 in case read_config configPath w of
                                      None \<Rightarrow> (Inl ENOENT, w)
                                    | Some configText \<Rightarrow>
                                        (case find (\<lambda>(k, a). truthy_opt (sub a) \<and> sub_is s a) (accounts d) of
                                           Some dup \<Rightarrow> (Inl (SameTokenIdentity (fst dup)), w)
                                         | None \<Rightarrow>
                                             (let w1 = writeBackupCreds L num credsText w;
                                                  w2 = writeBackupConfig num configText w1;
                                                  hint = getEmailHintFromCreds L credsText;
                                                  em = (if truthy_opt hint then the hint else JStr ''(unknown)'');
                                                  d' = d\<lparr>accounts :=
                                                             set_account num
                                                               \<lparr>email = Some em, sub = stored s, added = now\<rparr>
                                                               (accounts d),
                                                         sequence := sequence d @ [num],
                                                         activeAccountNumber := Some num,
                                                         lastUpdated := now\<rparr>
                                              in (Inr num, w2\<lparr>sequence_file := Some (Some d')\<rparr>)))))))))"

text \<open>
  \<open>switchToAccount\<close>, in the three steps of its body. First the account that is live now
  (lines 286 to 292): the first record whose \<open>sub\<close> is that of the live credential, and the
  stored \<open>activeAccountNumber\<close> when the credential gives no \<open>sub\<close> or no record has it.
\<close>

definition currentNum :: "lib \<Rightarrow> registry \<Rightarrow> world \<Rightarrow> nat option" where
  "currentNum L data w =
     (let currentSub =
            (case readCurrentCredentials w of
               None \<Rightarrow> None
             | Some t \<Rightarrow> if t = [] then None else getSubFromCreds L t)
      in if truthy_opt currentSub
         then (case find (\<lambda>(k, a). sub_is (the currentSub) a) (accounts data) of
                 Some match \<Rightarrow> Some (fst match)
               | None \<Rightarrow> activeAccountNumber data)
         else activeAccountNumber data)"

text \<open>
  Then the backup of the live files under that number (lines 294 to 300), when the
  registry has a record for it. \<open>fs.readFileSync(configPath)\<close> has no handler.
\<close>

definition backupCurrent :: "lib \<Rightarrow> registry \<Rightarrow> cfg_path \<Rightarrow> nat option \<Rightarrow> world \<Rightarrow> error + world" where
  "backupCurrent L data configPath cur w =
     (case Option.bind cur (map_of (accounts data)) of
        None \<Rightarrow> Inr w
      | Some info \<Rightarrow>
          (let cc = readCurrentCredentials w in
           case read_config configPath w of
             None \<Rightarrow> Inl ENOENT
           | Some cf \<Rightarrow>
               Inr (writeBackupConfig (the cur) cf
                      (if cc \<noteq> None \<and> cc \<noteq> Some [] then writeBackupCreds L (the cur) (the cc) w else w))))"

text \<open>
  Last the installation of the target's archived files (lines 302 to 321), with the
  registry update and the cleanup.
\<close>

definition installTarget ::
  "lib \<Rightarrow> string \<Rightarrow> nat \<Rightarrow> registry \<Rightarrow> cfg_path \<Rightarrow> world \<Rightarrow> (error + unit) \<times> world" where
  "installTarget L now targetNum data configPath w =
     (let tc = readBackupCreds L targetNum w;
          tf = readBackupConfig targetNum w
      in if tc = None \<or> tc = Some [] \<or> tf = None \<or> tf = Some []
         then (Inl (MissingBackupData targetNum), w)
         else
           (let w1 = writeCurrentCredentials (the tc) w in
            case JSON_parse L (the tf) of
              None \<Rightarrow> (Inl SyntaxError, w1)
            | Some tfData \<Rightarrow>
                if tfData = JNull then (Inl TypeError, w1)
                else if \<not> truthy_opt (get_prop tfData ''oauthAccount'') then (Inl InvalidBackupConfig, w1)
                else
                  (let oauth = the (get_prop tfData ''oauthAccount'');
                       cfg = readJSON L (read_config configPath w1);
                       currentCfg = (if truthy_opt cfg then the cfg else JObj []);
                       w2 = write_config configPath
                              (JSON_stringify L (set_prop currentCfg ''oauthAccount'' oauth)) w1;
                       data' = data\<lparr>activeAccountNumber := Some targetNum, lastUpdated := now\<rparr>;
                       w3 = w2\<lparr>sequence_file := Some (Some data')\<rparr>
                   in (Inr (), cleanupOrphanedBackups data' w3))))"

definition switchToAccount :: "lib \<Rightarrow> string \<Rightarrow> nat \<Rightarrow> world \<Rightarrow> (error + unit) \<times> world" where
  "switchToAccount L now targetNum w =
     (case getSeqData w of
        None \<Rightarrow> (Inl NoManagedAccounts, w)
      | Some data \<Rightarrow>
          (case map_of (accounts data) targetNum of
             None \<Rightarrow> (Inl (AccountNotFound targetNum), w)
           | Some tInfo \<Rightarrow>
               (let configPath = getConfigPath L w;
                    cur = currentNum L data w
                in case backupCurrent L data configPath cur w of
                     Inl e \<Rightarrow> (Inl e, w)
                   | Inr w1 \<Rightarrow> installTarget L now targetNum data configPath w1)))"

section \<open>Examples\<close>

text \<open>
  Concrete registries and file systems, on which the theorems below are instantiated.
  First an installation left by the earlier version: one account, its two archive files
  under the names that carry the email.
\<close>

definition legacy_registry :: registry where
  "legacy_registry =
     \<lparr>activeAccountNumber = Some 1, lastUpdated = ''2025-01-01T00:00:00Z'', sequence = [1],
      accounts = [(1, \<lparr>email = Some (JStr ''a@x.io''), sub = None, added = ''2025-01-01T00:00:00Z''\<rparr>)]\<rparr>"

definition legacy_world :: world where
  "legacy_world =
     \<lparr>creds_file = None, config_primary = None, config_fallback = None,
      sequence_file = Some (Some legacy_registry),
      credentials_dir = [(''.creds-1-a@x.io.enc'', ''e30='')],
      configs_dir = [(''.claude-config-1-a@x.io.json'', ''{}'')]\<rparr>"

text \<open>
  Two accounts of the earlier version, with the credential file of account 2 under its
  old name. The email stored for account 1 is a path: joined to the archive directory, the
  old name of account 1 leads to that file of account 2.
\<close>

definition alias_registry :: registry where
  "alias_registry =
     \<lparr>activeAccountNumber = Some 2, lastUpdated = ''2025-01-01T00:00:00Z'', sequence = [1, 2],
      accounts =
        [(1, \<lparr>email = Some (JStr ''x/../.creds-2-b@x.io''), sub = None, added = ''2025-01-01T00:00:00Z''\<rparr>),
         (2, \<lparr>email = Some (JStr ''b@x.io''), sub = None, added = ''2025-01-01T00:00:00Z''\<rparr>)]\<rparr>"

definition alias_world :: world where
  "alias_world =
     \<lparr>creds_file = None, config_primary = None, config_fallback = None,
      sequence_file = Some (Some alias_registry),
      credentials_dir = [(''.creds-2-b@x.io.enc'', ''e30='')],
      configs_dir = []\<rparr>"

text \<open>
  The credential texts of the examples. The access token of \<open>creds_A\<close> is a signed token
  whose payload is \<open>{"sub":"A"}\<close>; \<open>creds_B\<close> and \<open>creds_B2\<close> carry two tokens of
  the subject \<open>B\<close> with different signatures; the payload of \<open>creds_E\<close> is
  \<open>{"sub":""}\<close>; the token of \<open>creds_O\<close> is opaque; the payload of \<open>creds_S\<close> is the
  JSON string \<open>"abc"\<close>; the token of \<open>creds_N\<close> is the number 5.
\<close>

definition token_A :: string where
  \<open>token_A =
     ''e30.eyJzdWIiOiJBIn0.c2ln''\<close>

definition token_B :: string where
  \<open>token_B =
     ''e30.eyJzdWIiOiJCIn0.c2ln''\<close>

definition token_B2 :: string where
  \<open>token_B2 =
     ''e30.eyJzdWIiOiJCIn0.c2lnMg''\<close>

definition token_E :: string where
  \<open>token_E =
     ''e30.eyJzdWIiOiIifQ.c2ln''\<close>

definition token_O :: string where
  \<open>token_O =
     ''sk-ant-oat01-opaque''\<close>

definition token_S :: string where
  \<open>token_S =
     ''e30.ImFiYyI.c2ln''\<close>

definition creds_A :: string where
  \<open>creds_A =
     ''{"claudeAiOauth":{"accessToken":"e30.eyJzdWIiOiJBIn0.c2ln"}}''\<close>

definition creds_B :: string where
  \<open>creds_B =
     ''{"claudeAiOauth":{"accessToken":"e30.eyJzdWIiOiJCIn0.c2ln"}}''\<close>

definition creds_B2 :: string where
  \<open>creds_B2 =
     ''{"claudeAiOauth":{"accessToken":"e30.eyJzdWIiOiJCIn0.c2lnMg"}}''\<close>

definition creds_E :: string where
  \<open>creds_E =
     ''{"claudeAiOauth":{"accessToken":"e30.eyJzdWIiOiIifQ.c2ln"}}''\<close>

definition creds_O :: string where
  \<open>creds_O =
     ''{"claudeAiOauth":{"accessToken":"sk-ant-oat01-opaque"}}''\<close>

definition creds_S :: string where
  \<open>creds_S =
     ''{"claudeAiOauth":{"accessToken":"e30.ImFiYyI.c2ln"}}''\<close>

definition creds_N :: string where
  \<open>creds_N =
     ''{"claudeAiOauth":{"accessToken":5}}''\<close>

text \<open>
  The configuration texts: \<open>cfg_A\<close> and \<open>cfg_B\<close> as the host tool wrote them, and the
  documents \<open>doc_XY\<close> (the other keys of \<open>X\<close> with the \<open>oauthAccount\<close> of \<open>Y\<close>) with
  the texts \<open>JSON.stringify(doc, null, 2)\<close> prints for them.
\<close>

definition cfg_A :: string where
  \<open>cfg_A =
     ''{"oauthAccount":{"emailAddress":"a@x.io"},"theme":"dark"}''\<close>

definition cfg_B :: string where
  \<open>cfg_B =
     ''{"oauthAccount":{"emailAddress":"b@x.io"},"theme":"light"}''\<close>

definition cfg_no_oauth :: string where
  \<open>cfg_no_oauth =
     ''{"theme":"light"}''\<close>

definition doc_A :: json where
  \<open>doc_A =
     JObj [(''oauthAccount'', JObj [(''emailAddress'', JStr ''a@x.io'')]), (''theme'', JStr ''dark'')]\<close>

definition doc_B :: json where
  \<open>doc_B =
     JObj [(''oauthAccount'', JObj [(''emailAddress'', JStr ''b@x.io'')]), (''theme'', JStr ''light'')]\<close>

definition doc_AB :: json where
  \<open>doc_AB =
     JObj [(''oauthAccount'', JObj [(''emailAddress'', JStr ''b@x.io'')]), (''theme'', JStr ''dark'')]\<close>

definition doc_BA :: json where
  \<open>doc_BA =
     JObj [(''oauthAccount'', JObj [(''emailAddress'', JStr ''a@x.io'')]), (''theme'', JStr ''light'')]\<close>

definition pretty_A :: string where
  \<open>pretty_A =
     ''{
  "oauthAccount": {
    "emailAddress": "a@x.io"
  },
  "theme": "dark"
}''\<close>

definition pretty_B :: string where
  \<open>pretty_B =
     ''{
  "oauthAccount": {
    "emailAddress": "b@x.io"
  },
  "theme": "light"
}''\<close>

definition pretty_AB :: string where
  \<open>pretty_AB =
     ''{
  "oauthAccount": {
    "emailAddress": "b@x.io"
  },
  "theme": "dark"
}''\<close>

definition pretty_BA :: string where
  \<open>pretty_BA =
     ''{
  "oauthAccount": {
    "emailAddress": "a@x.io"
  },
  "theme": "light"
}''\<close>

text \<open>The base64 texts of three of the credential texts.\<close>

definition enc_A :: string where
  \<open>enc_A =
     ''eyJjbGF1ZGVBaU9hdXRoIjp7ImFjY2Vzc1Rva2VuIjoiZTMwLmV5SnpkV0lpT2lKQkluMC5jMmxuIn19''\<close>

definition enc_B :: string where
  \<open>enc_B =
     ''eyJjbGF1ZGVBaU9hdXRoIjp7ImFjY2Vzc1Rva2VuIjoiZTMwLmV5SnpkV0lpT2lKQ0luMC5jMmxuIn19''\<close>

definition enc_B2 :: string where
  \<open>enc_B2 =
     ''eyJjbGF1ZGVBaU9hdXRoIjp7ImFjY2Vzc1Rva2VuIjoiZTMwLmV5SnpkV0lpT2lKQ0luMC5jMmxuTWcifX0=''\<close>

text \<open>
  The library at these texts: each table lists the values the functions of Node take
  there. Outside its table a function answers \<open>None\<close> or the empty string; the only such
  argument an example reaches is a text that is not JSON, on which \<open>JSON.parse\<close> throws.
\<close>

definition example_parse :: "string \<Rightarrow> json option" where
  \<open>example_parse =
     map_of
       [(creds_A, JObj [(''claudeAiOauth'', JObj [(''accessToken'', JStr ''e30.eyJzdWIiOiJBIn0.c2ln'')])]),
        (creds_B, JObj [(''claudeAiOauth'', JObj [(''accessToken'', JStr ''e30.eyJzdWIiOiJCIn0.c2ln'')])]),
        (creds_B2, JObj [(''claudeAiOauth'', JObj [(''accessToken'', JStr ''e30.eyJzdWIiOiJCIn0.c2lnMg'')])]),
        (creds_E, JObj [(''claudeAiOauth'', JObj [(''accessToken'', JStr ''e30.eyJzdWIiOiIifQ.c2ln'')])]),
        (creds_O, JObj [(''claudeAiOauth'', JObj [(''accessToken'', JStr ''sk-ant-oat01-opaque'')])]),
        (creds_S, JObj [(''claudeAiOauth'', JObj [(''accessToken'', JStr ''e30.ImFiYyI.c2ln'')])]),
        (creds_N, JObj [(''claudeAiOauth'', JObj [(''accessToken'', JNum 5)])]),
        (''{"sub":"A"}'', JObj [(''sub'', JStr ''A'')]),
        (''{"sub":"B"}'', JObj [(''sub'', JStr ''B'')]),
        (''{"sub":""}'', JObj [(''sub'', JStr '''')]),
        (''"abc"'', JStr ''abc''),
        (cfg_A, doc_A),
        (cfg_B, doc_B),
        (cfg_no_oauth, JObj [(''theme'', JStr ''light'')]),
        (pretty_A, doc_A),
        (pretty_B, doc_B),
        (pretty_AB, doc_AB),
        (pretty_BA, doc_BA)]\<close>

definition example_stringify :: "json \<Rightarrow> string" where
  \<open>example_stringify =
     (\<lambda>j. case map_of
       [(doc_A, pretty_A),
        (doc_B, pretty_B),
        (doc_AB, pretty_AB),
        (doc_BA, pretty_BA)] j of
        Some t \<Rightarrow> t | None \<Rightarrow> [])\<close>

definition example_base64 :: "string \<Rightarrow> string" where
  \<open>example_base64 =
     (\<lambda>t. case map_of
       [(creds_A, enc_A),
        (creds_B, enc_B),
        (creds_B2, enc_B2)] t of
        Some r \<Rightarrow> r | None \<Rightarrow> [])\<close>

definition example_unbase64 :: "string \<Rightarrow> string" where
  \<open>example_unbase64 =
     (\<lambda>r. case map_of
       [(enc_A, creds_A),
        (enc_B, creds_B),
        (enc_B2, creds_B2)] r of
        Some t \<Rightarrow> t | None \<Rightarrow> [])\<close>

definition example_unbase64url :: "string \<Rightarrow> string" where
  \<open>example_unbase64url =
     (\<lambda>r. case map_of
       [(''eyJzdWIiOiJBIn0'', ''{"sub":"A"}''),
        (''eyJzdWIiOiJCIn0'', ''{"sub":"B"}''),
        (''eyJzdWIiOiIifQ'', ''{"sub":""}''),
        (''ImFiYyI'', ''"abc"'')] r of
        Some t \<Rightarrow> t | None \<Rightarrow> [])\<close>

definition example_sha256 :: "string \<Rightarrow> string" where
  \<open>example_sha256 =
     (\<lambda>t. case map_of
       [(token_O, ''a7008acb219a7f087ccc7ad6ff8b3fc681d0f73c563433db891d59f4eec7e859''),
        (token_E, ''cef38c751a6d15cdb31afa7acff795546e6bb5bc94a3ed22a8e9f49e386b8931'')] t of
        Some h \<Rightarrow> h | None \<Rightarrow> [])\<close>

definition example_lib :: lib where
  \<open>example_lib =
     \<lparr>JSON_parse = example_parse, JSON_stringify = example_stringify,
      base64_encode = example_base64, base64_decode = example_unbase64,
      base64url_decode = example_unbase64url, sha256_hex = example_sha256\<rparr>\<close>

text \<open>
  Registries of the examples: account 1 with the subject \<open>A\<close>, and in \<open>registry_AB\<close> also
  account 2 with the subject \<open>B\<close>; the argument is the stored \<open>activeAccountNumber\<close>.
\<close>

definition record_of :: "string \<Rightarrow> AccountRecord" where
  "record_of s = \<lparr>email = Some (JStr ''(unknown)''), sub = Some (JStr s), added = ''2025-06-01T10:00:00Z''\<rparr>"

definition registry_A :: registry where
  "registry_A =
     \<lparr>activeAccountNumber = Some 1, lastUpdated = ''2025-06-01T10:00:00Z'', sequence = [1],
      accounts = [(1, record_of ''A'')]\<rparr>"

definition registry_AB :: "nat option \<Rightarrow> registry" where
  "registry_AB active =
     \<lparr>activeAccountNumber = active, lastUpdated = ''2025-06-01T10:00:00Z'', sequence = [1, 2],
      accounts = [(1, record_of ''A''), (2, record_of ''B'')]\<rparr>"

definition registry_13 :: registry where
  "registry_13 =
     \<lparr>activeAccountNumber = Some 1, lastUpdated = ''2025-06-01T10:00:00Z'', sequence = [1, 3],
      accounts = [(1, record_of ''A''), (3, record_of ''B'')]\<rparr>"

text \<open>
  The account \<open>A\<close> is live and the registry points at account 2, whose archive holds the
  files of \<open>B\<close>.
\<close>

definition stale_world :: world where
  "stale_world =
     \<lparr>creds_file = Some creds_A, config_primary = Some cfg_A, config_fallback = None,
      sequence_file = Some (Some (registry_AB (Some 2))),
      credentials_dir = [(''.creds-2.enc'', enc_B)],
      configs_dir = [(''.claude-config-2.json'', cfg_B)]\<rparr>"

text \<open>The same with nothing archived, and with an archived config that has no \<open>oauthAccount\<close>.\<close>

definition unarchived_world :: world where
  "unarchived_world = stale_world\<lparr>credentials_dir := [], configs_dir := []\<rparr>"



text \<open>One saved account, \<open>A\<close>, which is live; nothing archived.\<close>

definition own_world :: world where
  "own_world =
     \<lparr>creds_file = Some creds_A, config_primary = Some cfg_A, config_fallback = None,
      sequence_file = Some (Some registry_A),
      credentials_dir = [], configs_dir = []\<rparr>"


text \<open>
  Account 1 (\<open>A\<close>) is saved and archived; \<open>B\<close> is live and not saved yet. In
  \<open>polluted_world\<close> the archive of account 1 holds a credential of \<open>B\<close> instead (what a
  switch leaves there when the live credential matched no record), and \<open>B\<close> is live with
  a newer token.
\<close>

definition fresh_world :: world where
  "fresh_world =
     \<lparr>creds_file = Some creds_B, config_primary = Some cfg_B, config_fallback = None,
      sequence_file = Some (Some registry_A),
      credentials_dir = [(''.creds-1.enc'', enc_A)],
      configs_dir = [(''.claude-config-1.json'', cfg_A)]\<rparr>"

definition polluted_world :: world where
  "polluted_world =
     \<lparr>creds_file = Some creds_B2, config_primary = Some cfg_A, config_fallback = None,
      sequence_file = Some (Some registry_A),
      credentials_dir = [(''.creds-1.enc'', enc_B)],
      configs_dir = [(''.claude-config-1.json'', cfg_B)]\<rparr>"

text \<open>
  The files of \<open>fresh_world\<close> with the number \<open>9007199254740992\<close> (\<open>2^53\<close>) for account
  \<open>A\<close>.
\<close>

definition registry_big :: registry where
  "registry_big =
     \<lparr>activeAccountNumber = Some 9007199254740992, lastUpdated = ''2025-06-01T10:00:00Z'',
      sequence = [9007199254740992],
      accounts = [(9007199254740992, record_of ''A'')]\<rparr>"

definition big_world :: world where
  "big_world =
     fresh_world\<lparr>sequence_file := Some (Some registry_big),
       credentials_dir := [(''.creds-9007199254740992.enc'', enc_A)],
       configs_dir := [(''.claude-config-9007199254740992.json'', cfg_A)]\<rparr>"


text \<open>
  The files after a save in \<open>fresh_world\<close> (the new account is 2), after the switch to
  account 1 that follows, and after the switch back to 2; all at the same clock reading.
\<close>

definition fresh_saved :: world where
  "fresh_saved =
     fresh_world\<lparr>sequence_file := Some (Some (registry_AB (Some 2))),
       credentials_dir := [(''.creds-1.enc'', enc_A), (''.creds-2.enc'', enc_B)],
       configs_dir := [(''.claude-config-1.json'', cfg_A), (''.claude-config-2.json'', cfg_B)]\<rparr>"

definition fresh_away :: world where
  "fresh_away =
     fresh_saved\<lparr>creds_file := Some creds_A, config_primary := Some pretty_BA,
       sequence_file := Some (Some (registry_AB (Some 1)))\<rparr>"

definition fresh_back :: world where
  "fresh_back =
     fresh_away\<lparr>creds_file := Some creds_B, config_primary := Some pretty_B,
       sequence_file := Some (Some (registry_AB (Some 2))),
       configs_dir := [(''.claude-config-1.json'', pretty_BA), (''.claude-config-2.json'', cfg_B)]\<rparr>"

text \<open>The same three steps from \<open>polluted_world\<close>.\<close>

definition polluted_saved :: world where
  "polluted_saved =
     polluted_world\<lparr>sequence_file := Some (Some (registry_AB (Some 2))),
       credentials_dir := [(''.creds-1.enc'', enc_B), (''.creds-2.enc'', enc_B2)],
       configs_dir := [(''.claude-config-1.json'', cfg_B), (''.claude-config-2.json'', cfg_A)]\<rparr>"

definition polluted_away :: world where
  "polluted_away =
     polluted_saved\<lparr>creds_file := Some creds_B, config_primary := Some pretty_AB,
       sequence_file := Some (Some (registry_AB (Some 1)))\<rparr>"

definition polluted_back :: world where
  "polluted_back =
     polluted_away\<lparr>sequence_file := Some (Some (registry_AB (Some 2))),
       credentials_dir := [(''.creds-1.enc'', enc_B), (''.creds-2.enc'', enc_B)],
       configs_dir := [(''.claude-config-1.json'', cfg_B), (''.claude-config-2.json'', pretty_AB)]\<rparr>"

section \<open>Properties\<close>

subsection \<open>Account numbers and file names\<close>

declare string_of_nat.simps [simp del]

lemma below_ten:
  "(d::nat) < 10 \<Longrightarrow> d = 0 \<or> d = 1 \<or> d = 2 \<or> d = 3 \<or> d = 4 \<or> d = 5 \<or> d = 6 \<or> d = 7 \<or> d = 8 \<or> d = 9"
  by arith

lemma digit_char_val: "d < 10 \<Longrightarrow> of_char (digit_char d) = (48::nat) + d"
  using below_ten[of d] by (auto simp: digit_char_def)

lemma digit_char_in: "d < 10 \<Longrightarrow> digit_char d \<in> set ''0123456789''"
  using below_ten[of d] by (auto simp: digit_char_def)

lemma nat_of_digits_string_of_nat: "nat_of_digits (string_of_nat n) = n"
proof (induction n rule: string_of_nat.induct)
  case (1 n)
  show ?case
  proof (cases "n < 10")
    case True
    then show ?thesis by (simp add: nat_of_digits_def digit_char_val string_of_nat.simps[of n])
  next
    case False
    have "nat_of_digits (string_of_nat n) =
            10 * nat_of_digits (string_of_nat (n div 10)) + (of_char (digit_char (n mod 10)) - 48)"
      using False by (subst string_of_nat.simps) (simp add: nat_of_digits_def)
    also have "\<dots> = 10 * (n div 10) + n mod 10"
      using 1 False by (simp add: digit_char_val)
    finally show ?thesis by simp
  qed
qed

lemma string_of_nat_inj: "string_of_nat n = string_of_nat m \<Longrightarrow> n = m"
  by (metis nat_of_digits_string_of_nat)

lemma string_of_nat_digits: "set (string_of_nat n) \<subseteq> set ''0123456789''"
proof (induction n rule: string_of_nat.induct)
  case (1 n)
  show ?case
  proof (cases "n < 10")
    case True
    then show ?thesis using digit_char_in[of n] by (subst string_of_nat.simps) simp
  next
    case False
    have "n mod 10 < 10" by simp
    then show ?thesis
      using 1 False digit_char_in[of "n mod 10"] by (subst string_of_nat.simps) simp
  qed
qed

subsection \<open>Numbering\<close>

text \<open>Below \<open>2^53\<close>, and at \<open>2^53\<close>, the doubles are the naturals.\<close>

lemma bit_length_le: "n < 2 ^ k \<Longrightarrow> bit_length n \<le> k"
proof (induction k arbitrary: n)
  case 0
  then show ?case by simp
next
  case (Suc k)
  then have "n div 2 < 2 ^ k" by simp
  from Suc.IH[OF this] show ?case by (subst bit_length.simps) simp
qed

lemma bit_length_power: "bit_length (2 ^ k) = Suc k"
  by (induction k) (simp_all add: bit_length.simps[of "2 ^ _"] bit_length.simps[of 1] bit_length.simps[of 0])

lemma nearest_double_exact: "n \<le> 2 ^ 53 \<Longrightarrow> nearest_double n = n"
proof (cases "n = 2 ^ 53")
  case True
  have "bit_length ((2::nat) ^ 53) = 54" using bit_length_power[of 53] by simp
  then show ?thesis using True by (simp add: nearest_double_def Let_def)
next
  case False
  assume "n \<le> 2 ^ 53"
  with False have "n < 2 ^ 53" by simp
  from bit_length_le[OF this] show ?thesis by (simp add: nearest_double_def Let_def)
qed

lemma nextNum_exact:
  assumes "\<forall>k \<in> fst ` set (accounts data). k < 2 ^ 53"
  shows "nextNum data = (if accounts data = [] then 1 else Max (fst ` set (accounts data)) + 1)"
proof (cases "accounts data = []")
  case True
  then show ?thesis by (simp add: nextNum_def)
next
  case False
  have same: "map (\<lambda>(k, a). nearest_double k) (accounts data) = map fst (accounts data)"
    using assms by (auto simp: nearest_double_exact)
  have "Max (fst ` set (accounts data)) \<in> fst ` set (accounts data)"
    using False by (intro Max_in) auto
  with assms have "Max (fst ` set (accounts data)) < 2 ^ 53" by blast
  then have "nearest_double (Max (fst ` set (accounts data)) + 1) = Max (fst ` set (accounts data)) + 1"
    by (intro nearest_double_exact) simp
  then show ?thesis using False by (simp add: nextNum_def same)
qed

lemma nextNum_fresh_key:
  assumes "\<forall>k \<in> fst ` set (accounts data). k < 2 ^ 53"
  shows "nextNum data \<notin> fst ` set (accounts data)"
proof
  assume a: "nextNum data \<in> fst ` set (accounts data)"
  then have ne: "accounts data \<noteq> []" by auto
  from a have "nextNum data \<le> Max (fst ` set (accounts data))" by simp
  then show False using nextNum_exact[OF assms] ne by simp
qed

lemma first_other_char:
  "set xs \<subseteq> D \<Longrightarrow> set ys \<subseteq> D \<Longrightarrow> c \<notin> D \<Longrightarrow> d \<notin> D \<Longrightarrow>
   xs @ c # r = ys @ d # r' \<Longrightarrow> xs = ys \<and> c = d \<and> r = r'"
proof (induction xs arbitrary: ys)
  case Nil
  then show ?case by (cases ys) auto
next
  case (Cons x xs)
  then show ?case by (cases ys) auto
qed

lemma creds_name_inj: "creds_name n = creds_name m \<Longrightarrow> n = m"
  using string_of_nat_inj by (simp add: creds_name_def)

lemma config_name_inj: "config_name n = config_name m \<Longrightarrow> n = m"
  using string_of_nat_inj by (simp add: config_name_def)

lemma creds_name_eq [simp]: "creds_name n = creds_name m \<longleftrightarrow> n = m"
  using creds_name_inj by blast

lemma config_name_eq [simp]: "config_name n = config_name m \<longleftrightarrow> n = m"
  using config_name_inj by blast

lemma creds_name_prefix: "startsWith (creds_name n) ''.creds-''"
  by (simp add: startsWith_def creds_name_def)

lemma config_name_prefix: "startsWith (config_name n) ''.claude-config-''"
  by (simp add: startsWith_def config_name_def)

lemma map_of_unlink_orphans:
  "map_of (unlink_orphans pre valid fs dir) f =
     (if f \<in> set fs \<and> startsWith f pre \<and> f \<notin> set valid then None else map_of dir f)"
  by (induction fs arbitrary: dir) (auto simp: delete_conv')

lemma map_of_unlink_listing:
  "map_of (unlink_orphans pre valid (map fst dir) dir) f =
     (if startsWith f pre \<and> f \<notin> set valid then None else map_of dir f)"
  by (auto simp: map_of_unlink_orphans map_of_eq_None_iff)

subsection \<open>Cleanup\<close>

lemma valid_creds_set:
  "f \<in> set (map (\<lambda>(num, a). creds_name num) al) \<longleftrightarrow> (\<exists>n \<in> fst ` set al. f = creds_name n)"
  by (induction al) auto

lemma valid_configs_set:
  "f \<in> set (map (\<lambda>(num, a). config_name num) al) \<longleftrightarrow> (\<exists>n \<in> fst ` set al. f = config_name n)"
  by (induction al) auto

lemma cleanup_credentials_dir:
  "map_of (credentials_dir (cleanupOrphanedBackups data w)) f =
     (if startsWith f ''.creds-'' \<and> f \<notin> creds_name ` fst ` set (accounts data) then None
      else map_of (credentials_dir w) f)"
proof -
  have "f \<in> set (map (\<lambda>(num, a). creds_name num) (accounts data)) \<longleftrightarrow> f \<in> creds_name ` fst ` set (accounts data)"
    using valid_creds_set[of f "accounts data"] by blast
  then show ?thesis
    by (simp add: cleanupOrphanedBackups_def Let_def map_of_unlink_listing)
qed

lemma cleanup_configs_dir:
  "map_of (configs_dir (cleanupOrphanedBackups data w)) f =
     (if startsWith f ''.claude-config-'' \<and> f \<notin> config_name ` fst ` set (accounts data) then None
      else map_of (configs_dir w) f)"
proof -
  have "f \<in> set (map (\<lambda>(num, a). config_name num) (accounts data)) \<longleftrightarrow> f \<in> config_name ` fst ` set (accounts data)"
    using valid_configs_set[of f "accounts data"] by blast
  then show ?thesis
    by (simp add: cleanupOrphanedBackups_def Let_def map_of_unlink_listing)
qed

lemma cleanup_other_files:
  "creds_file (cleanupOrphanedBackups data w) = creds_file w"
  "config_primary (cleanupOrphanedBackups data w) = config_primary w"
  "config_fallback (cleanupOrphanedBackups data w) = config_fallback w"
  "sequence_file (cleanupOrphanedBackups data w) = sequence_file w"
  by (simp_all add: cleanupOrphanedBackups_def Let_def)

lemma cleanup_creds_of_number:
  "map_of (credentials_dir (cleanupOrphanedBackups data w)) (creds_name n) =
     (if n \<in> fst ` set (accounts data) then map_of (credentials_dir w) (creds_name n) else None)"
proof -
  have "creds_name n \<in> creds_name ` fst ` set (accounts data) \<longleftrightarrow> n \<in> fst ` set (accounts data)"
    by force
  then show ?thesis by (simp add: cleanup_credentials_dir creds_name_prefix)
qed

lemma cleanup_config_of_number:
  "map_of (configs_dir (cleanupOrphanedBackups data w)) (config_name n) =
     (if n \<in> fst ` set (accounts data) then map_of (configs_dir w) (config_name n) else None)"
proof -
  have "config_name n \<in> config_name ` fst ` set (accounts data) \<longleftrightarrow> n \<in> fst ` set (accounts data)"
    by force
  then show ?thesis by (simp add: cleanup_configs_dir config_name_prefix)
qed

subsection \<open>Migration\<close>

lemma split_on_plain: "c \<notin> set s \<Longrightarrow> split_on c s = [s]"
  by (induction s) auto

lemma child_of_join_plain:
  "CHR ''/'' \<notin> set s \<Longrightarrow> s \<noteq> [] \<Longrightarrow> s \<noteq> ''.'' \<Longrightarrow> s \<noteq> ''..'' \<Longrightarrow> child_of_join s = Some s"
  by (simp add: child_of_join_def split_on_plain)

lemma digits_no_slash: "CHR ''/'' \<notin> set (string_of_nat n)"
  using string_of_nat_digits[of n] by auto

lemma old_creds_name_plain:
  assumes "js_String e = Some t" and "CHR ''/'' \<notin> set t"
  shows "old_creds_name n e = Some (old_creds_text n t)"
proof -
  have "child_of_join (old_creds_text n t) = Some (old_creds_text n t)"
    using assms(2) digits_no_slash[of n]
    by (intro child_of_join_plain) (auto simp: old_creds_text_def)
  then show ?thesis by (simp add: old_creds_name_def assms(1))
qed

lemma old_config_name_plain:
  assumes "js_String e = Some t" and "CHR ''/'' \<notin> set t"
  shows "old_config_name n e = Some (old_config_text n t)"
proof -
  have "child_of_join (old_config_text n t) = Some (old_config_text n t)"
    using assms(2) digits_no_slash[of n]
    by (intro child_of_join_plain) (auto simp: old_config_text_def)
  then show ?thesis by (simp add: old_config_name_def assms(1))
qed

lemma old_creds_text_neq: "old_creds_text n t \<noteq> creds_name m"
proof
  assume "old_creds_text n t = creds_name m"
  then have "string_of_nat n @ CHR ''-'' # (t @ ''.enc'') = string_of_nat m @ CHR ''.'' # ''enc''"
    by (simp add: old_creds_text_def creds_name_def)
  from first_other_char[OF string_of_nat_digits string_of_nat_digits _ _ this]
  show False by simp
qed

lemma old_config_text_neq: "old_config_text n t \<noteq> config_name m"
proof
  assume "old_config_text n t = config_name m"
  then have "string_of_nat n @ CHR ''-'' # (t @ ''.json'') = string_of_nat m @ CHR ''.'' # ''json''"
    by (simp add: old_config_text_def config_name_def)
  from first_other_char[OF string_of_nat_digits string_of_nat_digits _ _ this]
  show False by simp
qed

lemma old_creds_text_inj: "old_creds_text n t = old_creds_text m t' \<Longrightarrow> n = m"
proof -
  assume "old_creds_text n t = old_creds_text m t'"
  then have "string_of_nat n @ CHR ''-'' # (t @ ''.enc'') = string_of_nat m @ CHR ''-'' # (t' @ ''.enc'')"
    by (simp add: old_creds_text_def)
  from first_other_char[OF string_of_nat_digits string_of_nat_digits _ _ this]
  show ?thesis using string_of_nat_inj by simp
qed

lemma old_config_text_inj: "old_config_text n t = old_config_text m t' \<Longrightarrow> n = m"
proof -
  assume "old_config_text n t = old_config_text m t'"
  then have "string_of_nat n @ CHR ''-'' # (t @ ''.json'') = string_of_nat m @ CHR ''-'' # (t' @ ''.json'')"
    by (simp add: old_config_text_def)
  from first_other_char[OF string_of_nat_digits string_of_nat_digits _ _ this]
  show ?thesis using string_of_nat_inj by simp
qed

lemma archive_names_differ [simp]:
  "old_creds_text n t \<noteq> creds_name m" "creds_name m \<noteq> old_creds_text n t"
  "old_config_text n t \<noteq> config_name m" "config_name m \<noteq> old_config_text n t"
  "n \<noteq> m \<Longrightarrow> old_creds_text n t \<noteq> old_creds_text m t'"
  "n \<noteq> m \<Longrightarrow> old_config_text n t \<noteq> old_config_text m t'"
  using old_creds_text_neq[of n t m] old_config_text_neq[of n t m]
    old_creds_text_inj[of n t m t'] old_config_text_inj[of n t m t']
  by auto

lemma map_of_migrate_file:
  "map_of (migrate_file fails old new dir) f =
     (if map_of dir old \<noteq> None \<and> map_of dir new = None \<and> \<not> fails old
      then (if f = new then map_of dir old else if f = old then None else map_of dir f)
      else map_of dir f)"
  by (auto simp: migrate_file_def existsSync_def renameSync_def update_conv' delete_conv'
           split: option.splits)

lemma migrate_file_cong:
  "map_of d1 old = map_of d2 old \<Longrightarrow> map_of d1 new = map_of d2 new \<Longrightarrow> map_of d1 f = map_of d2 f \<Longrightarrow>
   map_of (migrate_file fails old new d1) f = map_of (migrate_file fails old new d2) f"
  by (simp add: map_of_migrate_file)

lemma migrate_file_frame:
  "g \<noteq> old \<Longrightarrow> g \<noteq> new \<Longrightarrow> map_of (migrate_file fails old new dir) g = map_of dir g"
  by (simp add: map_of_migrate_file)

lemma migrate_renamed:
  assumes "map_of dir old = Some c" and "map_of dir new = None" and "old \<noteq> new"
  shows "map_of (migrate_file fails old new dir) new = (if fails old then None else Some c)"
    and "map_of (migrate_file fails old new dir) old = (if fails old then Some c else None)"
  using assms by (simp_all add: map_of_migrate_file)

text \<open>The step of the loop at a record whose email is plain, and at one that is skipped.\<close>

lemma plain_email_text:
  "plain_email e \<Longrightarrow> \<exists>t. js_String e = Some t \<and> CHR ''/'' \<notin> set t"
  by (auto simp: plain_email_def split: option.splits)

lemma migrate_entries_skip:
  "email info = None \<or> (\<exists>e. email info = Some e \<and> \<not> truthy e) \<Longrightarrow>
   migrate_entries fails ((num, info) # rest) w = migrate_entries fails rest w"
  by auto

lemma migrate_entries_step:
  assumes "email info = Some e" and "truthy e" and "js_String e = Some t" and "CHR ''/'' \<notin> set t"
  shows "migrate_entries fails ((num, info) # rest) w =
           migrate_entries fails rest
             (w\<lparr>credentials_dir :=
                   migrate_file fails (old_creds_text num t) (creds_name num) (credentials_dir w),
                 configs_dir :=
                   migrate_file fails (old_config_text num t) (config_name num) (configs_dir w)\<rparr>)"
  using assms old_creds_name_plain[OF assms(3,4), of num] old_config_name_plain[OF assms(3,4), of num]
  by simp

lemma plain_emails_Cons:
  "plain_emails ((num, info) # rest) \<longleftrightarrow>
     (\<forall>e. email info = Some e \<and> truthy e \<longrightarrow> plain_email e) \<and> plain_emails rest"
  by (auto simp: plain_emails_def split: option.splits)

lemma migrate_entries_total:
  "plain_emails es \<Longrightarrow> \<exists>w'. migrate_entries fails es w = Some w'"
proof (induction es arbitrary: w)
  case Nil
  then show ?case by simp
next
  case (Cons x es)
  obtain num info where x: "x = (num, info)" by (cases x)
  from Cons.prems have pl: "\<forall>e. email info = Some e \<and> truthy e \<longrightarrow> plain_email e" "plain_emails es"
    by (simp_all add: x plain_emails_Cons)
  show ?case
  proof (cases "\<exists>e. email info = Some e \<and> truthy e")
    case True
    then obtain e where e: "email info = Some e" "truthy e" by blast
    with pl(1) plain_email_text obtain t where t: "js_String e = Some t" "CHR ''/'' \<notin> set t" by blast
    show ?thesis using Cons.IH[OF pl(2)] by (simp only: x migrate_entries_step[OF e t])
  next
    case False
    then have "email info = None \<or> (\<exists>e. email info = Some e \<and> \<not> truthy e)"
      by (cases "email info") auto
    from migrate_entries_skip[OF this] show ?thesis using Cons.IH[OF pl(2)] by (simp only: x)
  qed
qed

lemma migrate_entries_other_files:
  "migrate_entries fails es w = Some w' \<Longrightarrow>
   creds_file w' = creds_file w \<and> config_primary w' = config_primary w \<and>
   config_fallback w' = config_fallback w \<and> sequence_file w' = sequence_file w"
  by (induction fails es w rule: migrate_entries.induct) (auto split: option.splits if_splits)

text \<open>Entries with other numbers leave the two names of number \<open>n\<close> alone.\<close>

lemma migrate_entries_creds_frame:
  "plain_emails es \<Longrightarrow> n \<notin> fst ` set es \<Longrightarrow> f = creds_name n \<or> f = old_creds_text n t \<Longrightarrow>
   migrate_entries fails es w = Some w' \<Longrightarrow>
   map_of (credentials_dir w') f = map_of (credentials_dir w) f"
proof (induction es arbitrary: w)
  case Nil
  then show ?case by simp
next
  case (Cons x es)
  obtain num info where x: "x = (num, info)" by (cases x)
  from Cons.prems have pl: "\<forall>e. email info = Some e \<and> truthy e \<longrightarrow> plain_email e" "plain_emails es"
    and ne: "num \<noteq> n" and notin: "n \<notin> fst ` set es"
    by (auto simp: x plain_emails_Cons)
  have names: "f \<noteq> creds_name num" "\<And>t'. f \<noteq> old_creds_text num t'"
    using Cons.prems(3) ne by auto
  show ?case
  proof (cases "\<exists>e. email info = Some e \<and> truthy e")
    case True
    then obtain e where e: "email info = Some e" "truthy e" by blast
    with pl(1) plain_email_text obtain t' where t': "js_String e = Some t'" "CHR ''/'' \<notin> set t'" by blast
    let ?w1 = "w\<lparr>credentials_dir :=
                   migrate_file fails (old_creds_text num t') (creds_name num) (credentials_dir w),
                 configs_dir :=
                   migrate_file fails (old_config_text num t') (config_name num) (configs_dir w)\<rparr>"
    from Cons.prems(4) have run: "migrate_entries fails es ?w1 = Some w'"
      by (simp only: x migrate_entries_step[OF e t'])
    from Cons.IH[OF pl(2) notin Cons.prems(3) run]
    show ?thesis using names by (simp add: migrate_file_frame)
  next
    case False
    then have "email info = None \<or> (\<exists>e. email info = Some e \<and> \<not> truthy e)"
      by (cases "email info") auto
    from migrate_entries_skip[OF this] Cons.prems(4) have "migrate_entries fails es w = Some w'"
      by (simp only: x)
    from Cons.IH[OF pl(2) notin Cons.prems(3) this] show ?thesis .
  qed
qed

lemma migrate_entries_configs_frame:
  "plain_emails es \<Longrightarrow> n \<notin> fst ` set es \<Longrightarrow> f = config_name n \<or> f = old_config_text n t \<Longrightarrow>
   migrate_entries fails es w = Some w' \<Longrightarrow>
   map_of (configs_dir w') f = map_of (configs_dir w) f"
proof (induction es arbitrary: w)
  case Nil
  then show ?case by simp
next
  case (Cons x es)
  obtain num info where x: "x = (num, info)" by (cases x)
  from Cons.prems have pl: "\<forall>e. email info = Some e \<and> truthy e \<longrightarrow> plain_email e" "plain_emails es"
    and ne: "num \<noteq> n" and notin: "n \<notin> fst ` set es"
    by (auto simp: x plain_emails_Cons)
  have names: "f \<noteq> config_name num" "\<And>t'. f \<noteq> old_config_text num t'"
    using Cons.prems(3) ne by auto
  show ?case
  proof (cases "\<exists>e. email info = Some e \<and> truthy e")
    case True
    then obtain e where e: "email info = Some e" "truthy e" by blast
    with pl(1) plain_email_text obtain t' where t': "js_String e = Some t'" "CHR ''/'' \<notin> set t'" by blast
    let ?w1 = "w\<lparr>credentials_dir :=
                   migrate_file fails (old_creds_text num t') (creds_name num) (credentials_dir w),
                 configs_dir :=
                   migrate_file fails (old_config_text num t') (config_name num) (configs_dir w)\<rparr>"
    from Cons.prems(4) have run: "migrate_entries fails es ?w1 = Some w'"
      by (simp only: x migrate_entries_step[OF e t'])
    from Cons.IH[OF pl(2) notin Cons.prems(3) run]
    show ?thesis using names by (simp add: migrate_file_frame)
  next
    case False
    then have "email info = None \<or> (\<exists>e. email info = Some e \<and> \<not> truthy e)"
      by (cases "email info") auto
    from migrate_entries_skip[OF this] Cons.prems(4) have "migrate_entries fails es w = Some w'"
      by (simp only: x)
    from Cons.IH[OF pl(2) notin Cons.prems(3) this] show ?thesis .
  qed
qed

text \<open>The entry of number \<open>n\<close> does to its two names what its own step does.\<close>

lemma migrate_entries_creds_entry:
  assumes "plain_emails es" and "distinct (map fst es)" and "(n, info) \<in> set es"
    and "email info = Some e" and "truthy e" and "js_String e = Some t"
    and "f = creds_name n \<or> f = old_creds_text n t"
    and "migrate_entries fails es w = Some w'"
  shows "map_of (credentials_dir w') f =
           map_of (migrate_file fails (old_creds_text n t) (creds_name n) (credentials_dir w)) f"
  using assms
proof (induction es arbitrary: w)
  case Nil
  then show ?case by simp
next
  case (Cons x es)
  obtain num i where x: "x = (num, i)" by (cases x)
  from Cons.prems(1) have pl: "\<forall>e. email i = Some e \<and> truthy e \<longrightarrow> plain_email e" "plain_emails es"
    by (simp_all add: x plain_emails_Cons)
  show ?case
  proof (cases "num = n")
    case True
    with Cons.prems(2,3) have i: "i = info" and notin: "n \<notin> fst ` set es"
      by (auto simp: x image_iff)
    from pl(1) i Cons.prems(4,5,6) have sl: "CHR ''/'' \<notin> set t"
      by (auto simp: plain_email_def)
    let ?w1 = "w\<lparr>credentials_dir :=
                   migrate_file fails (old_creds_text n t) (creds_name n) (credentials_dir w),
                 configs_dir :=
                   migrate_file fails (old_config_text n t) (config_name n) (configs_dir w)\<rparr>"
    have "migrate_entries fails ((n, info) # es) w = migrate_entries fails es ?w1"
      using migrate_entries_step[OF Cons.prems(4,5,6) sl] .
    with Cons.prems(8) have run: "migrate_entries fails es ?w1 = Some w'"
      by (simp only: x True i)
    from migrate_entries_creds_frame[OF pl(2) notin Cons.prems(7) run]
    show ?thesis by simp
  next
    case False
    with Cons.prems(2,3) have mem: "(n, info) \<in> set es" and dist: "distinct (map fst es)"
      by (auto simp: x)
    have names: "f \<noteq> creds_name num" "\<And>t'. f \<noteq> old_creds_text num t'"
      "creds_name n \<noteq> creds_name num" "\<And>t'. creds_name n \<noteq> old_creds_text num t'"
      "old_creds_text n t \<noteq> creds_name num" "\<And>t'. old_creds_text n t \<noteq> old_creds_text num t'"
      using Cons.prems(7) False by auto
    show ?thesis
    proof (cases "\<exists>e. email i = Some e \<and> truthy e")
      case True
      then obtain e' where e': "email i = Some e'" "truthy e'" by blast
      with pl(1) plain_email_text obtain t' where t': "js_String e' = Some t'" "CHR ''/'' \<notin> set t'" by blast
      let ?w1 = "w\<lparr>credentials_dir :=
                   migrate_file fails (old_creds_text num t') (creds_name num) (credentials_dir w),
                 configs_dir :=
                   migrate_file fails (old_config_text num t') (config_name num) (configs_dir w)\<rparr>"
      from Cons.prems(8) have run: "migrate_entries fails es ?w1 = Some w'"
        by (simp only: x migrate_entries_step[OF e' t'])
      have "map_of (credentials_dir w') f =
              map_of (migrate_file fails (old_creds_text n t) (creds_name n) (credentials_dir ?w1)) f"
        using Cons.IH[OF pl(2) dist mem Cons.prems(4,5,6,7) run] .
      also have "\<dots> = map_of (migrate_file fails (old_creds_text n t) (creds_name n) (credentials_dir w)) f"
        using names by (intro migrate_file_cong) (simp_all add: migrate_file_frame)
      finally show ?thesis .
    next
      case False
      then have "email i = None \<or> (\<exists>e. email i = Some e \<and> \<not> truthy e)"
        by (cases "email i") auto
      from migrate_entries_skip[OF this] Cons.prems(8) have "migrate_entries fails es w = Some w'"
        by (simp only: x)
      from Cons.IH[OF pl(2) dist mem Cons.prems(4,5,6,7) this] show ?thesis .
    qed
  qed
qed

lemma migrate_entries_configs_entry:
  assumes "plain_emails es" and "distinct (map fst es)" and "(n, info) \<in> set es"
    and "email info = Some e" and "truthy e" and "js_String e = Some t"
    and "f = config_name n \<or> f = old_config_text n t"
    and "migrate_entries fails es w = Some w'"
  shows "map_of (configs_dir w') f =
           map_of (migrate_file fails (old_config_text n t) (config_name n) (configs_dir w)) f"
  using assms
proof (induction es arbitrary: w)
  case Nil
  then show ?case by simp
next
  case (Cons x es)
  obtain num i where x: "x = (num, i)" by (cases x)
  from Cons.prems(1) have pl: "\<forall>e. email i = Some e \<and> truthy e \<longrightarrow> plain_email e" "plain_emails es"
    by (simp_all add: x plain_emails_Cons)
  show ?case
  proof (cases "num = n")
    case True
    with Cons.prems(2,3) have i: "i = info" and notin: "n \<notin> fst ` set es"
      by (auto simp: x image_iff)
    from pl(1) i Cons.prems(4,5,6) have sl: "CHR ''/'' \<notin> set t"
      by (auto simp: plain_email_def)
    let ?w1 = "w\<lparr>credentials_dir :=
                   migrate_file fails (old_creds_text n t) (creds_name n) (credentials_dir w),
                 configs_dir :=
                   migrate_file fails (old_config_text n t) (config_name n) (configs_dir w)\<rparr>"
    have "migrate_entries fails ((n, info) # es) w = migrate_entries fails es ?w1"
      using migrate_entries_step[OF Cons.prems(4,5,6) sl] .
    with Cons.prems(8) have run: "migrate_entries fails es ?w1 = Some w'"
      by (simp only: x True i)
    from migrate_entries_configs_frame[OF pl(2) notin Cons.prems(7) run]
    show ?thesis by simp
  next
    case False
    with Cons.prems(2,3) have mem: "(n, info) \<in> set es" and dist: "distinct (map fst es)"
      by (auto simp: x)
    have names: "f \<noteq> config_name num" "\<And>t'. f \<noteq> old_config_text num t'"
      "config_name n \<noteq> config_name num" "\<And>t'. config_name n \<noteq> old_config_text num t'"
      "old_config_text n t \<noteq> config_name num" "\<And>t'. old_config_text n t \<noteq> old_config_text num t'"
      using Cons.prems(7) False by auto
    show ?thesis
    proof (cases "\<exists>e. email i = Some e \<and> truthy e")
      case True
      then obtain e' where e': "email i = Some e'" "truthy e'" by blast
      with pl(1) plain_email_text obtain t' where t': "js_String e' = Some t'" "CHR ''/'' \<notin> set t'" by blast
      let ?w1 = "w\<lparr>credentials_dir :=
                   migrate_file fails (old_creds_text num t') (creds_name num) (credentials_dir w),
                 configs_dir :=
                   migrate_file fails (old_config_text num t') (config_name num) (configs_dir w)\<rparr>"
      from Cons.prems(8) have run: "migrate_entries fails es ?w1 = Some w'"
        by (simp only: x migrate_entries_step[OF e' t'])
      have "map_of (configs_dir w') f =
              map_of (migrate_file fails (old_config_text n t) (config_name n) (configs_dir ?w1)) f"
        using Cons.IH[OF pl(2) dist mem Cons.prems(4,5,6,7) run] .
      also have "\<dots> = map_of (migrate_file fails (old_config_text n t) (config_name n) (configs_dir w)) f"
        using names by (intro migrate_file_cong) (simp_all add: migrate_file_frame)
      finally show ?thesis .
    next
      case False
      then have "email i = None \<or> (\<exists>e. email i = Some e \<and> \<not> truthy e)"
        by (cases "email i") auto
      from migrate_entries_skip[OF this] Cons.prems(8) have "migrate_entries fails es w = Some w'"
        by (simp only: x)
      from Cons.IH[OF pl(2) dist mem Cons.prems(4,5,6,7) this] show ?thesis .
    qed
  qed
qed

lemmas name_simps = creds_name_def config_name_def old_creds_name_def old_config_name_def
  old_creds_text_def old_config_text_def child_of_join_def string_of_nat.simps digit_char_def

subsection \<open>Legacy migration\<close>

text \<open>
  Claim C9, as amended. Take a registry whose keys are distinct and whose truthy emails
  are plain: each has a text (it is no number of magnitude \<open>2^53\<close> or more), and the text
  has no path separator. For a record \<open>n\<close> of it with a truthy email, the old paths are
  the files named by the old texts. If the credential file
  under the old name exists and the one under the number-only name does not, then after
  \<open>migrateBackupFilenames\<close> the number-only name holds the same text and the old name is
  gone; when the rename fails, the failure is swallowed and both names are as before. The
  same holds for the config archive. The function returns in every such case, and the
  live files and the registry are untouched.
\<close>

theorem migration_renames_legacy_files:
  assumes "distinct (map fst (accounts d))" and "plain_emails (accounts d)"
    and "(n, info) \<in> set (accounts d)" and "email info = Some e" and "truthy e"
  shows "\<exists>w' t. migrateBackupFilenames fails (Some d) w = Some w' \<and> js_String e = Some t \<and>
     old_creds_name n e = Some (old_creds_text n t) \<and>
     old_config_name n e = Some (old_config_text n t) \<and>
     (map_of (credentials_dir w) (old_creds_text n t) = Some c \<and>
      map_of (credentials_dir w) (creds_name n) = None \<longrightarrow>
        map_of (credentials_dir w') (creds_name n) = (if fails (old_creds_text n t) then None else Some c) \<and>
        map_of (credentials_dir w') (old_creds_text n t) = (if fails (old_creds_text n t) then Some c else None)) \<and>
     (map_of (configs_dir w) (old_config_text n t) = Some c' \<and>
      map_of (configs_dir w) (config_name n) = None \<longrightarrow>
        map_of (configs_dir w') (config_name n) = (if fails (old_config_text n t) then None else Some c') \<and>
        map_of (configs_dir w') (old_config_text n t) = (if fails (old_config_text n t) then Some c' else None)) \<and>
     creds_file w' = creds_file w \<and> config_primary w' = config_primary w \<and>
     config_fallback w' = config_fallback w \<and> sequence_file w' = sequence_file w"
proof -
  from migrate_entries_total[OF assms(2), of fails w] obtain w'
    where run: "migrate_entries fails (accounts d) w = Some w'" by blast
  have "plain_email e"
    using assms(2,3,4,5) by (auto simp: plain_emails_def list_all_iff)
  with plain_email_text obtain t where t: "js_String e = Some t" "CHR ''/'' \<notin> set t" by blast
  have creds: "map_of (credentials_dir w') g =
      map_of (migrate_file fails (old_creds_text n t) (creds_name n) (credentials_dir w)) g"
    if "g = creds_name n \<or> g = old_creds_text n t" for g
    using migrate_entries_creds_entry[OF assms(2,1,3,4,5) t(1) that run] .
  have configs: "map_of (configs_dir w') g =
      map_of (migrate_file fails (old_config_text n t) (config_name n) (configs_dir w)) g"
    if "g = config_name n \<or> g = old_config_text n t" for g
    using migrate_entries_configs_entry[OF assms(2,1,3,4,5) t(1) that run] .
  have a: "map_of (credentials_dir w') (creds_name n) = (if fails (old_creds_text n t) then None else Some c)"
    "map_of (credentials_dir w') (old_creds_text n t) = (if fails (old_creds_text n t) then Some c else None)"
    if "map_of (credentials_dir w) (old_creds_text n t) = Some c"
      and "map_of (credentials_dir w) (creds_name n) = None"
    using that migrate_renamed[OF that, of fails] by (simp_all add: creds)
  have b: "map_of (configs_dir w') (config_name n) = (if fails (old_config_text n t) then None else Some c')"
    "map_of (configs_dir w') (old_config_text n t) = (if fails (old_config_text n t) then Some c' else None)"
    if "map_of (configs_dir w) (old_config_text n t) = Some c'"
      and "map_of (configs_dir w) (config_name n) = None"
    using that migrate_renamed[OF that, of fails] by (simp_all add: configs)
  have m: "migrateBackupFilenames fails (Some d) w = Some w'"
    by (simp add: migrateBackupFilenames_def run)
  note names = old_creds_name_plain[OF t, of n] old_config_name_plain[OF t, of n]
  note frame = migrate_entries_other_files[OF run]
  show ?thesis
    apply (rule exI[of _ w'])
    apply (rule exI[of _ t])
    using m t(1) names frame a b apply (intro conjI impI)
                apply (simp_all only:)
    done
qed

theorem migration_renames_legacy_files_witness:
  "distinct (map fst (accounts legacy_registry)) \<and> plain_emails (accounts legacy_registry) \<and>
   old_creds_name 1 (JStr ''a@x.io'') = Some ''.creds-1-a@x.io.enc'' \<and>
   old_config_name 1 (JStr ''a@x.io'') = Some ''.claude-config-1-a@x.io.json'' \<and>
   map_of (credentials_dir legacy_world) ''.creds-1-a@x.io.enc'' = Some ''e30='' \<and>
   map_of (configs_dir legacy_world) ''.claude-config-1-a@x.io.json'' = Some ''{}'' \<and>
   (\<exists>w'. migrateBackupFilenames (\<lambda>f. False) (Some legacy_registry) legacy_world = Some w' \<and>
      map_of (credentials_dir w') ''.creds-1.enc'' = Some ''e30='' \<and>
      map_of (credentials_dir w') ''.creds-1-a@x.io.enc'' = None \<and>
      map_of (configs_dir w') ''.claude-config-1.json'' = Some ''{}'' \<and>
      map_of (configs_dir w') ''.claude-config-1-a@x.io.json'' = None) \<and>
   (\<exists>w'. migrateBackupFilenames (\<lambda>f. True) (Some legacy_registry) legacy_world = Some w' \<and>
      map_of (credentials_dir w') ''.creds-1.enc'' = None \<and>
      map_of (credentials_dir w') ''.creds-1-a@x.io.enc'' = Some ''e30='' \<and>
      map_of (configs_dir w') ''.claude-config-1.json'' = None \<and>
      map_of (configs_dir w') ''.claude-config-1-a@x.io.json'' = Some ''{}'')"
proof -
  let ?r = "\<lparr>email = Some (JStr ''a@x.io''), sub = None, added = ''2025-01-01T00:00:00Z''\<rparr>"
  have h: "distinct (map fst (accounts legacy_registry))" "plain_emails (accounts legacy_registry)"
    "(1, ?r) \<in> set (accounts legacy_registry)" "email ?r = Some (JStr ''a@x.io'')" "truthy (JStr ''a@x.io'')"
    by (simp_all add: legacy_registry_def plain_emails_def plain_email_def)
  have n: "old_creds_text 1 ''a@x.io'' = ''.creds-1-a@x.io.enc''"
    "old_config_text 1 ''a@x.io'' = ''.claude-config-1-a@x.io.json''"
    "creds_name 1 = ''.creds-1.enc''" "config_name 1 = ''.claude-config-1.json''"
    by (simp_all add: name_simps)
  have f: "map_of (credentials_dir legacy_world) ''.creds-1-a@x.io.enc'' = Some ''e30=''"
    "map_of (configs_dir legacy_world) ''.claude-config-1-a@x.io.json'' = Some ''{}''"
    "map_of (credentials_dir legacy_world) ''.creds-1.enc'' = None"
    "map_of (configs_dir legacy_world) ''.claude-config-1.json'' = None"
    by (simp_all add: legacy_world_def)
  note t = migration_renames_legacy_files[OF h, of _ legacy_world "''e30=''" "''{}''"]
  from t[of "\<lambda>f. False"] n f
  have ok: "\<exists>w'. migrateBackupFilenames (\<lambda>f. False) (Some legacy_registry) legacy_world = Some w' \<and>
      map_of (credentials_dir w') ''.creds-1.enc'' = Some ''e30='' \<and>
      map_of (credentials_dir w') ''.creds-1-a@x.io.enc'' = None \<and>
      map_of (configs_dir w') ''.claude-config-1.json'' = Some ''{}'' \<and>
      map_of (configs_dir w') ''.claude-config-1-a@x.io.json'' = None"
    by auto
  from t[of "\<lambda>f. True"] n f
  have refused: "\<exists>w'. migrateBackupFilenames (\<lambda>f. True) (Some legacy_registry) legacy_world = Some w' \<and>
      map_of (credentials_dir w') ''.creds-1.enc'' = None \<and>
      map_of (credentials_dir w') ''.creds-1-a@x.io.enc'' = Some ''e30='' \<and>
      map_of (configs_dir w') ''.claude-config-1.json'' = None \<and>
      map_of (configs_dir w') ''.claude-config-1-a@x.io.json'' = Some ''{}''"
    by auto
  from t[of "\<lambda>f. False"] n
  have names: "old_creds_name 1 (JStr ''a@x.io'') = Some ''.creds-1-a@x.io.enc''"
    "old_config_name 1 (JStr ''a@x.io'') = Some ''.claude-config-1-a@x.io.json''"
    by auto
  from h(1,2) names f(1,2) ok refused show ?thesis by blast
qed

text \<open>
  The claim as stated fails when the email of another record is a path. In \<open>alias_world\<close>
  the credential file of account 2 exists under its old name and not under the number-only
  one. The loop comes to account 1 first, whose old path is that same file, and renames
  it to the number-only name of account 1; when it comes to account 2 the old file is
  gone. No rename fails, and the file of account 2 is not under the number-only name of
  account 2.
\<close>

theorem migration_counterexample:
  "map_of (accounts alias_registry) 2 =
     Some \<lparr>email = Some (JStr ''b@x.io''), sub = None, added = ''2025-01-01T00:00:00Z''\<rparr> \<and>
   old_creds_name 2 (JStr ''b@x.io'') = Some ''.creds-2-b@x.io.enc'' \<and>
   map_of (credentials_dir alias_world) ''.creds-2-b@x.io.enc'' = Some ''e30='' \<and>
   map_of (credentials_dir alias_world) (creds_name 2) = None \<and>
   old_creds_name 1 (JStr ''x/../.creds-2-b@x.io'') = Some ''.creds-2-b@x.io.enc'' \<and>
   migrateBackupFilenames (\<lambda>f. False) (Some alias_registry) alias_world =
     Some (alias_world\<lparr>credentials_dir := [(''.creds-1.enc'', ''e30='')]\<rparr>) \<and>
   map_of [(''.creds-1.enc'', ''e30='')] (creds_name 2) = None"
  by (simp add: alias_registry_def alias_world_def migrateBackupFilenames_def migrate_file_def
                existsSync_def renameSync_def name_simps)

subsection \<open>The steps of a switch\<close>

lemma switch_unfold:
  assumes "getSeqData w = Some data" and "map_of (accounts data) N = Some tInfo"
  shows "switchToAccount L now N w =
           (case backupCurrent L data (getConfigPath L w) (currentNum L data w) w of
              Inl e \<Rightarrow> (Inl e, w)
            | Inr w1 \<Rightarrow> installTarget L now N data (getConfigPath L w) w1)"
  using assms by (simp add: switchToAccount_def Let_def)

lemma switch_no_registry: "getSeqData w = None \<Longrightarrow> switchToAccount L now N w = (Inl NoManagedAccounts, w)"
  by (simp add: switchToAccount_def)

lemma switch_no_account:
  "getSeqData w = Some data \<Longrightarrow> map_of (accounts data) N = None \<Longrightarrow>
   switchToAccount L now N w = (Inl (AccountNotFound N), w)"
  by (simp add: switchToAccount_def)

lemma backupCurrent_skip:
  "Option.bind cur (map_of (accounts data)) = None \<Longrightarrow> backupCurrent L data p cur w = Inr w"
  by (simp add: backupCurrent_def)


lemma backupCurrent_live_files:
  assumes "backupCurrent L data p cur w = Inr w1"
  shows "creds_file w1 = creds_file w" and "config_primary w1 = config_primary w"
    and "config_fallback w1 = config_fallback w" and "sequence_file w1 = sequence_file w"
    and "read_config q w1 = read_config q w"
  using assms
  by (auto simp: backupCurrent_def Let_def writeBackupConfig_def writeBackupCreds_def read_config_def
           split: option.splits if_splits cfg_path.splits)


text \<open>The archive after the backup: only the two files of the current account change.\<close>

lemma backupCurrent_configs_dir:
  assumes "backupCurrent L data p cur w = Inr w1"
  shows "map_of (configs_dir w1) f =
           (if Option.bind cur (map_of (accounts data)) \<noteq> None \<and> f = config_name (the cur)
            then read_config p w else map_of (configs_dir w) f)"
  using assms
  by (auto simp: backupCurrent_def Let_def writeBackupConfig_def writeBackupCreds_def update_conv'
           split: option.splits if_splits Option.bind_splits)

lemma backupCurrent_credentials_dir:
  assumes "backupCurrent L data p cur w = Inr w1"
  shows "map_of (credentials_dir w1) f =
           (if Option.bind cur (map_of (accounts data)) \<noteq> None \<and> f = creds_name (the cur)
               \<and> creds_file w \<noteq> None \<and> creds_file w \<noteq> Some []
            then Some (base64_encode L (the (creds_file w))) else map_of (credentials_dir w) f)"
  using assms
  by (auto simp: backupCurrent_def Let_def writeBackupConfig_def writeBackupCreds_def update_conv'
                 readCurrentCredentials_def
           split: option.splits if_splits Option.bind_splits)

lemma install_missing:
  assumes "readBackupCreds L N w = None \<or> readBackupCreds L N w = Some [] \<or>
           readBackupConfig N w = None \<or> readBackupConfig N w = Some []"
  shows "installTarget L now N data p w = (Inl (MissingBackupData N), w)"
  using assms by (auto simp: installTarget_def Let_def)

lemma install_missing_iff:
  "fst (installTarget L now N data p w) = Inl (MissingBackupData N) \<longleftrightarrow>
     (readBackupCreds L N w = None \<or> readBackupCreds L N w = Some [] \<or>
      readBackupConfig N w = None \<or> readBackupConfig N w = Some [])"
  by (auto simp: installTarget_def Let_def split: option.splits)


subsection \<open>Evaluating the examples\<close>

lemmas example_simps =
  example_lib_def example_parse_def example_stringify_def example_base64_def example_unbase64_def
  example_unbase64url_def example_sha256_def
  token_A_def token_B_def token_B2_def token_E_def token_O_def token_S_def
  creds_A_def creds_B_def creds_B2_def creds_E_def creds_O_def creds_S_def creds_N_def
  cfg_A_def cfg_B_def cfg_no_oauth_def doc_A_def doc_B_def doc_AB_def doc_BA_def
  pretty_A_def pretty_B_def pretty_AB_def pretty_BA_def enc_A_def enc_B_def enc_B2_def
  record_of_def registry_A_def registry_AB_def registry_13_def

lemmas resolver_simps =
  getToken_def decodeJwtPayload_def getSubFromCreds_def getEmailHintFromCreds_def truthy_opt_def
  sub_is_def isSaved_def Let_def

lemmas store_simps =
  readJSON_def read_config_def write_config_def readCurrentCredentials_def writeCurrentCredentials_def
  readBackupCreds_def writeBackupCreds_def readBackupConfig_def writeBackupConfig_def
  getConfigPath_def getSeqData_def initSequenceFile_def name_simps
  cleanupOrphanedBackups_def startsWith_def

lemmas swap_simps =
  switchToAccount_def currentNum_def backupCurrent_def installTarget_def saveCurrentAccount_def nextNum_def
  set_account_def array_index_def stored_def nearest_double_exact

subsection \<open>A switch that misses the target's archive\<close>



lemma backupCurrent_total:
  "read_config p w \<noteq> None \<Longrightarrow> \<exists>w1. backupCurrent L data p cur w = Inr w1"
  by (auto simp: backupCurrent_def Let_def split: option.splits)

lemma backupCurrent_other_archive:
  assumes "backupCurrent L data p cur w = Inr w1" and "cur \<noteq> Some N"
  shows "readBackupCreds L N w1 = readBackupCreds L N w"
    and "readBackupConfig N w1 = readBackupConfig N w"
proof -
  have ne: "Option.bind cur (map_of (accounts data)) \<noteq> None \<Longrightarrow> the cur \<noteq> N"
    using assms(2) by (cases cur) auto
  show "readBackupCreds L N w1 = readBackupCreds L N w"
    using backupCurrent_credentials_dir[OF assms(1), of "creds_name N"] ne
    by (auto simp: readBackupCreds_def)
  show "readBackupConfig N w1 = readBackupConfig N w"
    using backupCurrent_configs_dir[OF assms(1), of "config_name N"] ne
    by (auto simp: readBackupConfig_def)
qed

subsection \<open>The missing-backup error\<close>

text \<open>
  Claim C5, as amended. Let \<open>N\<close> be a key of \<open>accounts\<close> that is not the account the switch
  resolves as current, let the live config file exist, and let the archived credential
  or the archived config of \<open>N\<close> be missing or empty. Then \<open>switchToAccount N\<close> throws
  \<open>Missing backup data for Account-N\<close>, and the live credential file, the two live config
  files and the registry file (with its \<open>activeAccountNumber\<close>) are as before.
\<close>

theorem missing_backup_leaves_live_files:
  assumes "getSeqData w = Some data" and "map_of (accounts data) N = Some tInfo"
    and "currentNum L data w \<noteq> Some N"
    and "read_config (getConfigPath L w) w \<noteq> None"
    and "readBackupCreds L N w = None \<or> readBackupCreds L N w = Some [] \<or>
         readBackupConfig N w = None \<or> readBackupConfig N w = Some []"
  shows "\<exists>w'. switchToAccount L now N w = (Inl (MissingBackupData N), w') \<and>
           creds_file w' = creds_file w \<and> config_primary w' = config_primary w \<and>
           config_fallback w' = config_fallback w \<and> sequence_file w' = sequence_file w"
proof -
  let ?p = "getConfigPath L w" and ?cur = "currentNum L data w"
  from backupCurrent_total[OF assms(4)] obtain w1
    where w1: "backupCurrent L data ?p ?cur w = Inr w1" by blast
  have "readBackupCreds L N w1 = None \<or> readBackupCreds L N w1 = Some [] \<or>
        readBackupConfig N w1 = None \<or> readBackupConfig N w1 = Some []"
    using backupCurrent_other_archive[OF w1 assms(3)] assms(5) by simp
  then have "installTarget L now N data ?p w1 = (Inl (MissingBackupData N), w1)"
    by (rule install_missing)
  then have "switchToAccount L now N w = (Inl (MissingBackupData N), w1)"
    using switch_unfold[OF assms(1,2), of L now] w1 by simp
  then show ?thesis using backupCurrent_live_files[OF w1] by simp
qed

theorem missing_backup_leaves_live_files_witness:
  "switchToAccount example_lib ''2025-06-02T08:00:00Z'' 2 unarchived_world =
     (Inl (MissingBackupData 2),
      unarchived_world\<lparr>credentials_dir := [(''.creds-1.enc'', enc_A)],
                        configs_dir := [(''.claude-config-1.json'', cfg_A)]\<rparr>) \<and>
   getSeqData unarchived_world = Some (registry_AB (Some 2)) \<and>
   map_of (accounts (registry_AB (Some 2))) 2 = Some (record_of ''B'') \<and>
   currentNum example_lib (registry_AB (Some 2)) unarchived_world = Some 1 \<and>
   read_config (getConfigPath example_lib unarchived_world) unarchived_world = Some cfg_A \<and>
   readBackupCreds example_lib 2 unarchived_world = None"
proof -
  have seq: "getSeqData unarchived_world = Some (registry_AB (Some 2))"
    by (simp add: unarchived_world_def stale_world_def getSeqData_def)
  have rec: "map_of (accounts (registry_AB (Some 2))) 2 = Some (record_of ''B'')"
    by (simp add: registry_AB_def)
  have cur: "currentNum example_lib (registry_AB (Some 2)) unarchived_world = Some 1"
    by (simp add: unarchived_world_def stale_world_def swap_simps store_simps resolver_simps example_simps)
  have cfg: "read_config (getConfigPath example_lib unarchived_world) unarchived_world = Some cfg_A"
    by (simp add: unarchived_world_def stale_world_def store_simps resolver_simps example_simps)
  have miss: "readBackupCreds example_lib 2 unarchived_world = None"
    by (simp add: unarchived_world_def stale_world_def readBackupCreds_def)
  have run: "switchToAccount example_lib ''2025-06-02T08:00:00Z'' 2 unarchived_world =
     (Inl (MissingBackupData 2),
      unarchived_world\<lparr>credentials_dir := [(''.creds-1.enc'', enc_A)],
                        configs_dir := [(''.claude-config-1.json'', cfg_A)]\<rparr>)"
    by (simp add: unarchived_world_def stale_world_def swap_simps store_simps resolver_simps example_simps)
  from missing_backup_leaves_live_files[OF seq rec, of example_lib "''2025-06-02T08:00:00Z''"]
    seq rec cur cfg miss run
  show ?thesis by simp
qed

text \<open>
  The claim as stated fails in two ways. In \<open>own_world\<close> account 1 is live and has no
  archive: the switch to 1 archives the live files under 1 first, finds them, and
  succeeds. And when the live config file does not exist, the backup step throws before
  the archive of the target is looked for.
\<close>

theorem missing_backup_counterexample:
  "getSeqData own_world = Some registry_A \<and>
   map_of (accounts registry_A) 1 = Some (record_of ''A'') \<and>
   readBackupCreds example_lib 1 own_world = None \<and>
   readBackupConfig 1 own_world = None \<and>
   fst (switchToAccount example_lib ''2025-06-02T08:00:00Z'' 1 own_world) = Inr () \<and>
   readBackupCreds example_lib 2 (unarchived_world\<lparr>config_primary := None\<rparr>) = None \<and>
   fst (switchToAccount example_lib ''2025-06-02T08:00:00Z'' 2 (unarchived_world\<lparr>config_primary := None\<rparr>)) =
     Inl ENOENT"
  by (simp add: own_world_def unarchived_world_def stale_world_def swap_simps store_simps
                resolver_simps example_simps)

subsection \<open>The account resolved as current\<close>

lemma getSubFromCreds_truthy: "getSubFromCreds L c = Some s \<Longrightarrow> truthy s"
  by (auto simp: getSubFromCreds_def split: option.splits if_splits json.splits)




lemma write_config_fields [simp]:
  "creds_file (write_config p t w) = creds_file w"
  "sequence_file (write_config p t w) = sequence_file w"
  "credentials_dir (write_config p t w) = credentials_dir w"
  "configs_dir (write_config p t w) = configs_dir w"
  "read_config p (write_config p t w) = Some t"
  by (simp_all add: write_config_def read_config_def split: cfg_path.splits)

lemma read_config_frame [simp]:
  "read_config p (w\<lparr>creds_file := c\<rparr>) = read_config p w"
  "read_config p (w\<lparr>sequence_file := q\<rparr>) = read_config p w"
  "read_config p (w\<lparr>credentials_dir := d\<rparr>) = read_config p w"
  "read_config p (w\<lparr>configs_dir := d\<rparr>) = read_config p w"
  by (simp_all add: read_config_def split: cfg_path.splits)

text \<open>What a switch leaves in the archive files of the account it backed up.\<close>

lemma install_keeps_archive:
  assumes "map_of (accounts data) K \<noteq> None"
  shows "map_of (credentials_dir (snd (installTarget L now N data p w))) (creds_name K) =
           map_of (credentials_dir w) (creds_name K)"
    and "map_of (configs_dir (snd (installTarget L now N data p w))) (config_name K) =
           map_of (configs_dir w) (config_name K)"
proof -
  have key: "K \<in> fst ` set (accounts data)"
    using assms by (metis map_of_eq_None_iff)
  show "map_of (credentials_dir (snd (installTarget L now N data p w))) (creds_name K) =
           map_of (credentials_dir w) (creds_name K)"
    using key
    by (auto simp: installTarget_def Let_def cleanup_creds_of_number writeCurrentCredentials_def
             split: option.splits)
  show "map_of (configs_dir (snd (installTarget L now N data p w))) (config_name K) =
           map_of (configs_dir w) (config_name K)"
    using key
    by (auto simp: installTarget_def Let_def cleanup_config_of_number writeCurrentCredentials_def
             split: option.splits)
qed






subsection \<open>The installation step\<close>

lemma install_success:
  assumes "installTarget L now N data p w = (Inr u, w')"
  shows "\<exists>tc tf tfData oauth.
           readBackupCreds L N w = Some tc \<and> tc \<noteq> [] \<and>
           readBackupConfig N w = Some tf \<and> tf \<noteq> [] \<and>
           JSON_parse L tf = Some tfData \<and> get_prop tfData ''oauthAccount'' = Some oauth \<and> truthy oauth \<and>
           w' = cleanupOrphanedBackups (data\<lparr>activeAccountNumber := Some N, lastUpdated := now\<rparr>)
                  ((write_config p
                      (JSON_stringify L
                         (set_prop (if truthy_opt (readJSON L (read_config p w))
                                    then the (readJSON L (read_config p w)) else JObj [])
                            ''oauthAccount'' oauth))
                      (writeCurrentCredentials tc w))
                   \<lparr>sequence_file := Some (Some (data\<lparr>activeAccountNumber := Some N, lastUpdated := now\<rparr>))\<rparr>)"
  using assms
  by (auto simp: installTarget_def Let_def truthy_opt_def writeCurrentCredentials_def
           split: option.splits if_splits)


lemma switch_success:
  assumes "switchToAccount L now N w = (Inr u, w')"
  shows "\<exists>data w1. getSeqData w = Some data \<and> map_of (accounts data) N \<noteq> None \<and>
           backupCurrent L data (getConfigPath L w) (currentNum L data w) w = Inr w1 \<and>
           installTarget L now N data (getConfigPath L w) w1 = (Inr u, w')"
proof -
  from assms obtain data where data: "getSeqData w = Some data"
    by (cases "getSeqData w") (auto simp: switch_no_registry)
  from assms data obtain tInfo where tInfo: "map_of (accounts data) N = Some tInfo"
    by (cases "map_of (accounts data) N") (auto simp: switch_no_account)
  from assms switch_unfold[OF data tInfo, of L now] obtain w1
    where "backupCurrent L data (getConfigPath L w) (currentNum L data w) w = Inr w1"
    by (cases "backupCurrent L data (getConfigPath L w) (currentNum L data w) w") auto
  with assms switch_unfold[OF data tInfo, of L now] data tInfo show ?thesis by auto
qed


lemma cleanup_same_accounts:
  "accounts d' = accounts d \<Longrightarrow> credentials_dir (cleanupOrphanedBackups d' w) = credentials_dir (cleanupOrphanedBackups d w)
     \<and> configs_dir (cleanupOrphanedBackups d' w) = configs_dir (cleanupOrphanedBackups d w)"
  by (simp add: cleanupOrphanedBackups_def)

lemma install_success_files:
  assumes "installTarget L now N data p w = (Inr u, w')" and "map_of (accounts data) N \<noteq> None"
  shows "\<exists>tc tf tfData oauth.
           readBackupCreds L N w = Some tc \<and> tc \<noteq> [] \<and>
           readBackupConfig N w = Some tf \<and> tf \<noteq> [] \<and>
           JSON_parse L tf = Some tfData \<and> get_prop tfData ''oauthAccount'' = Some oauth \<and> truthy oauth \<and>
           creds_file w' = Some tc \<and>
           read_config p w' =
             Some (JSON_stringify L
                     (set_prop (if truthy_opt (readJSON L (read_config p w))
                                then the (readJSON L (read_config p w)) else JObj [])
                        ''oauthAccount'' oauth)) \<and>
           (\<forall>q. q \<noteq> p \<longrightarrow> read_config q w' = read_config q w) \<and>
           sequence_file w' = Some (Some (data\<lparr>activeAccountNumber := Some N, lastUpdated := now\<rparr>)) \<and>
           readBackupCreds L N w' = Some tc \<and> readBackupConfig N w' = Some tf"
proof -
  from install_success[OF assms(1)] obtain tc tf tfData oauth where
    h: "readBackupCreds L N w = Some tc" "tc \<noteq> []" "readBackupConfig N w = Some tf" "tf \<noteq> []"
       "JSON_parse L tf = Some tfData" "get_prop tfData ''oauthAccount'' = Some oauth" "truthy oauth"
    and w': "w' = cleanupOrphanedBackups (data\<lparr>activeAccountNumber := Some N, lastUpdated := now\<rparr>)
                  ((write_config p
                      (JSON_stringify L
                         (set_prop (if truthy_opt (readJSON L (read_config p w))
                                    then the (readJSON L (read_config p w)) else JObj [])
                            ''oauthAccount'' oauth))
                      (writeCurrentCredentials tc w))
                   \<lparr>sequence_file := Some (Some (data\<lparr>activeAccountNumber := Some N, lastUpdated := now\<rparr>))\<rparr>)"
    by blast
  have key: "N \<in> fst ` set (accounts data)"
    using assms(2) by (metis map_of_eq_None_iff)
  have rc: "read_config q (cleanupOrphanedBackups d v) = read_config q v" for q d v
    by (simp add: read_config_def cleanup_other_files split: cfg_path.splits)
  have other: "read_config q (write_config p t v) = read_config q v" if "q \<noteq> p" for q t v
    using that by (cases q; cases p) (simp_all add: read_config_def write_config_def)
  have "creds_file w' = Some tc"
    by (simp add: w' cleanup_other_files writeCurrentCredentials_def)
  moreover have "read_config p w' =
             Some (JSON_stringify L
                     (set_prop (if truthy_opt (readJSON L (read_config p w))
                                then the (readJSON L (read_config p w)) else JObj [])
                        ''oauthAccount'' oauth))"
    by (simp add: w' rc)
  moreover have "\<forall>q. q \<noteq> p \<longrightarrow> read_config q w' = read_config q w"
    by (simp add: w' rc other writeCurrentCredentials_def)
  moreover have "sequence_file w' = Some (Some (data\<lparr>activeAccountNumber := Some N, lastUpdated := now\<rparr>))"
    by (simp add: w' cleanup_other_files)
  moreover have "readBackupCreds L N w' = Some tc"
    using h(1) key
    by (simp add: w' readBackupCreds_def cleanup_creds_of_number writeCurrentCredentials_def)
  moreover have "readBackupConfig N w' = Some tf"
    using h(3) key
    by (simp add: w' readBackupConfig_def cleanup_config_of_number writeCurrentCredentials_def)
  ultimately show ?thesis using h by blast
qed


subsection \<open>The live config after a switch\<close>





subsection \<open>Orphan cleanup\<close>





subsection \<open>Saving an identity that is already saved\<close>

lemma getSubFromCreds_token: "getSubFromCreds L c = Some s \<Longrightarrow> getToken L c \<noteq> None"
  by (auto simp: getSubFromCreds_def split: option.splits)

lemma isSaved_iff:
  "isSaved (Some d) (Some s) \<longleftrightarrow> truthy s \<and> (\<exists>(k, a) \<in> set (accounts d). sub_is s a)"
  by (auto simp: isSaved_def list_ex_iff)

text \<open>The second duplicate check of \<open>saveCurrentAccount\<close> never finds anything the first one let through.\<close>

lemma dup_check_unreachable:
  assumes "\<not> isSaved (Some d) (Some s)" and "truthy s"
  shows "find (\<lambda>(k, a). truthy_opt (sub a) \<and> sub_is s a) (accounts d) = None"
proof -
  from assms have "\<forall>(k, a) \<in> set (accounts d). \<not> sub_is s a"
    by (auto simp: isSaved_iff)
  then show ?thesis by (auto simp: find_None_iff)
qed

text \<open>
  Claim C2. When the live credential resolves to the \<open>sub\<close> of a record \<open>K\<close> of the
  registry, \<open>saveCurrentAccount\<close> throws and changes no file: neither the registry nor an
  archive directory. But the error is \<open>This account is already saved\<close>, thrown by the first
  check (\<open>isSaved\<close>); the error that names the account, \<open>Account-K has the same token
  identity\<close>, is thrown by a second check that no call reaches.
\<close>

theorem save_duplicate_is_already_saved:
  "(getSeqData w = Some d \<and> creds_file w = Some c \<and> c \<noteq> [] \<and> getSubFromCreds L c = Some s \<and>
    (K, a) \<in> set (accounts d) \<and> sub_is s a \<longrightarrow>
      saveCurrentAccount L now w = (Inl AlreadySaved, w)) \<and>
   fst (saveCurrentAccount L now w) \<noteq> Inl (SameTokenIdentity K)"
proof -
  have first: "saveCurrentAccount L now w = (Inl AlreadySaved, w)"
    if h: "getSeqData w = Some d" "creds_file w = Some c" "c \<noteq> []" "getSubFromCreds L c = Some s"
      "(K, a) \<in> set (accounts d)" "sub_is s a"
  proof -
    from h(1) have init: "initSequenceFile now w = w"
      by (auto simp: initSequenceFile_def getSeqData_def split: option.splits)
    have tr: "truthy s" using getSubFromCreds_truthy[OF h(4)] .
    have saved: "isSaved (Some d) (Some s)" using h(5,6) tr by (auto simp: isSaved_iff)
    from getSubFromCreds_token[OF h(4)] obtain token where tok: "getToken L c = Some token" by blast
    show ?thesis
      using init h(1-4) tr saved tok
      by (simp add: saveCurrentAccount_def Let_def readCurrentCredentials_def)
  qed
  have second: "fst (saveCurrentAccount L now w) \<noteq> Inl (SameTokenIdentity K)"
  proof -
    let ?w = "initSequenceFile now w"
    have "find (\<lambda>(k, a). truthy_opt (sub a) \<and> sub_is s' a) (accounts d') = None"
      if "\<not> isSaved (getSeqData ?w) (Some s')" and "truthy s'" and "getSeqData ?w = Some d'" for s' d'
      using dup_check_unreachable[of d' s'] that by simp
    then show ?thesis
      by (auto simp: saveCurrentAccount_def Let_def split: option.splits if_splits)
  qed
  from first second show ?thesis by blast
qed

theorem save_duplicate_is_already_saved_witness:
  "getSubFromCreds example_lib creds_A = Some (JStr ''A'') \<and>
   (1, record_of ''A'') \<in> set (accounts registry_A) \<and>
   saveCurrentAccount example_lib ''2025-06-02T08:00:00Z'' own_world = (Inl AlreadySaved, own_world) \<and>
   fst (saveCurrentAccount example_lib ''2025-06-02T08:00:00Z'' own_world) \<noteq> Inl (SameTokenIdentity 1)"
proof -
  have seq: "getSeqData own_world = Some registry_A"
    by (simp add: own_world_def getSeqData_def)
  have live: "creds_file own_world = Some creds_A" "creds_A \<noteq> []"
    by (simp_all add: own_world_def creds_A_def)
  have sub: "getSubFromCreds example_lib creds_A = Some (JStr ''A'')"
    by (simp add: resolver_simps example_simps)
  have rec: "(1, record_of ''A'') \<in> set (accounts registry_A)" "sub_is (JStr ''A'') (record_of ''A'')"
    by (simp_all add: registry_A_def record_of_def sub_is_def)
  note t = save_duplicate_is_already_saved[of own_world registry_A creds_A example_lib "JStr ''A''" 1
      "record_of ''A''" "''2025-06-02T08:00:00Z''"]
  from t seq live sub rec show ?thesis by blast
qed

subsection \<open>Identity resolution\<close>

lemma decodeJwtPayload_three:
  "split_on CHR ''.'' t = [h, p, sg] \<Longrightarrow>
   decodeJwtPayload L (JStr t) = JSON_parse L (base64url_decode L p)"
  by (simp add: decodeJwtPayload_def Let_def)

text \<open>
  Claim C3, as amended. \<open>getSubFromCreds\<close> returns \<open>null\<close> when no access token can be
  extracted, and when the token extracted is not a string. For a token that is a string:
  when it has three segments whose middle one decodes to a JSON object with a truthy
  \<open>sub\<close>, the result is that \<open>sub\<close>; when the middle one decodes to a JSON string, the
  result is no string but the function every string has as its \<open>sub\<close>; in every other
  case (no payload, a payload that is neither an object nor a string, an object with no
  \<open>sub\<close> or a falsy one such as the empty string) the result is \<open>fp-\<close> followed by the
  first 24 hex digits of the token's SHA-256: 27 characters for a 64-digit digest. The
  result depends on the token only, so two resolutions of the same token give the same
  identity.
\<close>

theorem getSubFromCreds_cases:
  "(getToken L c = None \<longrightarrow> getSubFromCreds L c = None) \<and>
   (getToken L c = Some tok \<and> (\<forall>t. tok \<noteq> JStr t) \<longrightarrow> getSubFromCreds L c = None) \<and>
   (getToken L c = Some (JStr t) \<and> split_on CHR ''.'' t = [h, p, sg] \<and>
    JSON_parse L (base64url_decode L p) = Some (JObj kvs) \<and>
    map_of kvs ''sub'' = Some s \<and> truthy s \<longrightarrow>
      getSubFromCreds L c = Some s) \<and>
   (getToken L c = Some (JStr t) \<and> split_on CHR ''.'' t = [h, p, sg] \<and>
    JSON_parse L (base64url_decode L p) = Some (JStr x) \<longrightarrow>
      getSubFromCreds L c = Some (JFun ''sub'')) \<and>
   (getToken L c = Some (JStr t) \<and>
    (decodeJwtPayload L (JStr t) = None \<or>
     (\<exists>j. decodeJwtPayload L (JStr t) = Some j \<and> (\<forall>x. j \<noteq> JStr x) \<and>
          (\<forall>kvs. j = JObj kvs \<longrightarrow> \<not> truthy_opt (map_of kvs ''sub'')))) \<longrightarrow>
      getSubFromCreds L c = Some (JStr (''fp-'' @ take 24 (sha256_hex L t))) \<and>
      (length (sha256_hex L t) = 64 \<longrightarrow> length (''fp-'' @ take 24 (sha256_hex L t)) = 27)) \<and>
   (length (split_on CHR ''.'' t) \<noteq> 3 \<longrightarrow> decodeJwtPayload L (JStr t) = None) \<and>
   (getToken L c = getToken L c' \<longrightarrow> getSubFromCreds L c = getSubFromCreds L c')"
proof -
  have a: "getSubFromCreds L c = None" if "getToken L c = None"
    using that by (simp add: getSubFromCreds_def)
  have n: "getSubFromCreds L c = None" if "getToken L c = Some tok" "\<forall>t. tok \<noteq> JStr t"
    using that by (cases tok) (simp_all add: getSubFromCreds_def decodeJwtPayload_def)
  have b: "getSubFromCreds L c = Some s"
    if "getToken L c = Some (JStr t)" "split_on CHR ''.'' t = [h, p, sg]"
      "JSON_parse L (base64url_decode L p) = Some (JObj kvs)"
      "map_of kvs ''sub'' = Some s" "truthy s"
    using that by (simp add: getSubFromCreds_def decodeJwtPayload_three)
  have f: "getSubFromCreds L c = Some (JFun ''sub'')"
    if "getToken L c = Some (JStr t)" "split_on CHR ''.'' t = [h, p, sg]"
      "JSON_parse L (base64url_decode L p) = Some (JStr x)"
    using that by (simp add: getSubFromCreds_def decodeJwtPayload_three)
  have c: "getSubFromCreds L c = Some (JStr (''fp-'' @ take 24 (sha256_hex L t)))"
    if tok: "getToken L c = Some (JStr t)"
      and pl: "decodeJwtPayload L (JStr t) = None \<or>
        (\<exists>j. decodeJwtPayload L (JStr t) = Some j \<and> (\<forall>x. j \<noteq> JStr x) \<and>
             (\<forall>kvs. j = JObj kvs \<longrightarrow> \<not> truthy_opt (map_of kvs ''sub'')))"
  proof -
    have "\<not> truthy_opt (Option.bind (decodeJwtPayload L (JStr t)) (\<lambda>p. get_prop p ''sub''))"
    proof (cases "decodeJwtPayload L (JStr t)")
      case None
      then show ?thesis by (simp add: truthy_opt_def)
    next
      case (Some j)
      with pl have "(\<forall>x. j \<noteq> JStr x) \<and> (\<forall>kvs. j = JObj kvs \<longrightarrow> \<not> truthy_opt (map_of kvs ''sub''))"
        by simp
      then show ?thesis using Some by (cases j) (simp_all add: truthy_opt_def)
    qed
    then show ?thesis
      using tok by (auto simp: getSubFromCreds_def truthy_opt_def split: option.splits)
  qed
  have d: "length (''fp-'' @ take 24 (sha256_hex L t)) = 27" if "length (sha256_hex L t) = 64"
    using that by simp
  have g: "decodeJwtPayload L (JStr t) = None" if "length (split_on CHR ''.'' t) \<noteq> 3"
    using that by (simp add: decodeJwtPayload_def)
  have e: "getSubFromCreds L c = getSubFromCreds L c'" if "getToken L c = getToken L c'"
    using that by (simp add: getSubFromCreds_def)
  from a n b f c d g e show ?thesis by blast
qed

theorem getSubFromCreds_cases_witness:
  "getToken example_lib ''not json'' = None \<and>
   getSubFromCreds example_lib ''not json'' = None \<and>
   getToken example_lib creds_N = Some (JNum 5) \<and>
   getSubFromCreds example_lib creds_N = None \<and>
   getToken example_lib creds_A = Some (JStr token_A) \<and>
   split_on CHR ''.'' token_A = [''e30'', ''eyJzdWIiOiJBIn0'', ''c2ln''] \<and>
   JSON_parse example_lib (base64url_decode example_lib ''eyJzdWIiOiJBIn0'') = Some (JObj [(''sub'', JStr ''A'')]) \<and>
   getSubFromCreds example_lib creds_A = Some (JStr ''A'') \<and>
   getToken example_lib creds_S = Some (JStr token_S) \<and>
   split_on CHR ''.'' token_S = [''e30'', ''ImFiYyI'', ''c2ln''] \<and>
   JSON_parse example_lib (base64url_decode example_lib ''ImFiYyI'') = Some (JStr ''abc'') \<and>
   getSubFromCreds example_lib creds_S = Some (JFun ''sub'') \<and>
   getToken example_lib creds_O = Some (JStr token_O) \<and>
   decodeJwtPayload example_lib (JStr token_O) = None \<and>
   length (sha256_hex example_lib token_O) = 64 \<and>
   getSubFromCreds example_lib creds_O = Some (JStr ''fp-a7008acb219a7f087ccc7ad6'') \<and>
   length ''fp-a7008acb219a7f087ccc7ad6'' = 27"
proof -
  have n: "getToken example_lib ''not json'' = None"
    by (simp add: resolver_simps example_simps)
  have tn: "getToken example_lib creds_N = Some (JNum 5)" "\<forall>t. JNum 5 \<noteq> JStr t"
    by (simp_all add: resolver_simps example_simps)
  have ta: "getToken example_lib creds_A = Some (JStr token_A)"
    "split_on CHR ''.'' token_A = [''e30'', ''eyJzdWIiOiJBIn0'', ''c2ln'']"
    "JSON_parse example_lib (base64url_decode example_lib ''eyJzdWIiOiJBIn0'') = Some (JObj [(''sub'', JStr ''A'')])"
    "map_of [(''sub'', JStr ''A'')] ''sub'' = Some (JStr ''A'')" "truthy (JStr ''A'')"
    by (simp_all add: resolver_simps example_simps)
  have ts: "getToken example_lib creds_S = Some (JStr token_S)"
    "split_on CHR ''.'' token_S = [''e30'', ''ImFiYyI'', ''c2ln'']"
    "JSON_parse example_lib (base64url_decode example_lib ''ImFiYyI'') = Some (JStr ''abc'')"
    by (simp_all add: resolver_simps example_simps)
  have t_o: "getToken example_lib creds_O = Some (JStr token_O)"
    "decodeJwtPayload example_lib (JStr token_O) = None"
    "length (sha256_hex example_lib token_O) = 64"
    "sha256_hex example_lib token_O = ''a7008acb219a7f087ccc7ad6ff8b3fc681d0f73c563433db891d59f4eec7e859''"
    by (simp_all add: resolver_simps example_simps)
  note t = getSubFromCreds_cases[of example_lib]
  have r1: "getSubFromCreds example_lib ''not json'' = None"
    using t[of "''not json''"] n by blast
  have r2: "getSubFromCreds example_lib creds_N = None"
    using t[of creds_N "JNum 5"] tn by blast
  have r3: "getSubFromCreds example_lib creds_A = Some (JStr ''A'')"
    using t[of creds_A _ token_A "''e30''" "''eyJzdWIiOiJBIn0''" "''c2ln''" "[(''sub'', JStr ''A'')]" "JStr ''A''"] ta
    by blast
  have r4: "getSubFromCreds example_lib creds_S = Some (JFun ''sub'')"
    using t[of creds_S _ token_S "''e30''" "''ImFiYyI''" "''c2ln''" _ _ "''abc''"] ts
    by blast
  have r5: "getSubFromCreds example_lib creds_O = Some (JStr (''fp-'' @ take 24 (sha256_hex example_lib token_O))) \<and>
      length (''fp-'' @ take 24 (sha256_hex example_lib token_O)) = 27"
    using t[of creds_O _ token_O] t_o(1,2,3) by blast
  then have r6: "getSubFromCreds example_lib creds_O = Some (JStr ''fp-a7008acb219a7f087ccc7ad6'')"
    by (simp add: t_o(4))
  from n r1 tn(1) r2 ta(1,2,3) r3 ts r4 t_o(1,2,3) r6 show ?thesis by simp
qed

text \<open>
  The claim as stated fails on a payload whose \<open>sub\<close> is falsy: the payload of the token
  of \<open>creds_E\<close> is JSON and contains the \<open>sub\<close> claim \<open>""\<close>, and the identity returned is
  the fingerprint of the token, not that \<open>sub\<close>.
\<close>

theorem getSubFromCreds_counterexample:
  "getToken example_lib creds_E = Some (JStr token_E) \<and>
   split_on CHR ''.'' token_E = [''e30'', ''eyJzdWIiOiIifQ'', ''c2ln''] \<and>
   JSON_parse example_lib (base64url_decode example_lib ''eyJzdWIiOiIifQ'') = Some (JObj [(''sub'', JStr [])]) \<and>
   getSubFromCreds example_lib creds_E \<noteq> Some (JStr []) \<and>
   getSubFromCreds example_lib creds_E = Some (JStr (''fp-'' @ take 24 (sha256_hex example_lib token_E)))"
  by (simp add: resolver_simps example_simps)

subsection \<open>Setting a record of the registry\<close>

lemma find_Some_set: "find P xs = Some x \<Longrightarrow> x \<in> set xs \<and> P x"
  by (auto simp: find_Some_iff)

lemma insert_key_set: "set (insert_key k v al) = insert (k, v) (set al)"
  by (induction al) (auto split: if_splits)

lemma in_fst_image: "(k, b) \<in> set al \<Longrightarrow> k \<in> fst ` set al"
  by force

lemma replace_mem:
  "(k', a) \<in> set (map (\<lambda>(k', v'). if k' = k then (k', v) else (k', v')) al) \<longleftrightarrow>
     (k' = k \<and> a = v \<and> k \<in> fst ` set al) \<or> (k' \<noteq> k \<and> (k', a) \<in> set al)"
proof (induction al)
  case Nil
  then show ?case by simp
next
  case (Cons x al)
  obtain kx vx where x: "x = (kx, vx)" by (cases x)
  show ?case using Cons by (auto simp: x)
qed

lemma set_account_entries:
  "(k', a) \<in> set (set_account k v al) \<longleftrightarrow> (k' = k \<and> a = v) \<or> (k' \<noteq> k \<and> (k', a) \<in> set al)"
proof (cases "k \<in> fst ` set al")
  case True
  then have "set_account k v al = map (\<lambda>(k', v'). if k' = k then (k', v) else (k', v')) al"
    by (simp add: set_account_def)
  then show ?thesis using True replace_mem[of k' a k v al] by simp
next
  case False
  then have "set_account k v al = insert_key k v al"
    by (simp add: set_account_def)
  then show ?thesis using False by (auto simp: insert_key_set dest: in_fst_image)
qed

lemma set_account_keys: "fst ` set (set_account k v al) = insert k (fst ` set al)"
proof -
  have "k' \<in> fst ` set (set_account k v al) \<longleftrightarrow> k' \<in> insert k (fst ` set al)" for k'
  proof -
    have "k' \<in> fst ` set (set_account k v al) \<longleftrightarrow> (\<exists>a. (k', a) \<in> set (set_account k v al))"
      by force
    also have "\<dots> \<longleftrightarrow> k' = k \<or> (\<exists>a. (k', a) \<in> set al)"
      unfolding set_account_entries by blast
    also have "\<dots> \<longleftrightarrow> k' \<in> insert k (fst ` set al)"
      by force
    finally show ?thesis .
  qed
  then show ?thesis by blast
qed

lemma map_of_replace:
  "map_of (map (\<lambda>(k', v'). if k' = k then (k', v) else (k', v')) al) k' =
     (if k' = k then (if k \<in> fst ` set al then Some v else None) else map_of al k')"
proof (induction al)
  case Nil
  then show ?case by simp
next
  case (Cons x al)
  obtain kx vx where x: "x = (kx, vx)" by (cases x)
  show ?case using Cons by (auto simp: x dest: in_fst_image)
qed

lemma map_of_insert_key:
  "k \<notin> fst ` set al \<Longrightarrow> map_of (insert_key k v al) = (map_of al)(k \<mapsto> v)"
  by (induction al) (auto simp: fun_eq_iff)

lemma map_of_set_account: "map_of (set_account k v al) = (map_of al)(k \<mapsto> v)"
proof (cases "k \<in> fst ` set al")
  case True
  then show ?thesis by (auto simp: set_account_def map_of_replace fun_eq_iff)
next
  case False
  then show ?thesis by (simp add: set_account_def map_of_insert_key)
qed

lemma find_set_account:
  assumes "\<forall>x \<in> set al. \<not> P x"
  shows "find P (set_account k v al) = (if P (k, v) then Some (k, v) else None)"
proof (cases "find P (set_account k v al)")
  case None
  then have "\<not> P (k, v)" by (auto simp: find_None_iff set_account_entries)
  with None show ?thesis by simp
next
  case (Some x)
  obtain k' a where x: "x = (k', a)" by (cases x)
  from find_Some_set[OF Some] x have "(k', a) \<in> set (set_account k v al)" "P (k', a)" by auto
  with assms have "k' = k \<and> a = v" by (auto simp: set_account_entries)
  with Some x \<open>P (k', a)\<close> show ?thesis by simp
qed

subsection \<open>Saving, then switching away and back\<close>

lemma init_frame:
  "creds_file (initSequenceFile now w) = creds_file w"
  "config_primary (initSequenceFile now w) = config_primary w"
  "config_fallback (initSequenceFile now w) = config_fallback w"
  "credentials_dir (initSequenceFile now w) = credentials_dir w"
  "configs_dir (initSequenceFile now w) = configs_dir w"
  "getConfigPath L (initSequenceFile now w) = getConfigPath L w"
  "read_config p (initSequenceFile now w) = read_config p w"
  by (simp_all add: initSequenceFile_def getConfigPath_def read_config_def split: cfg_path.splits)

lemma save_success:
  assumes "saveCurrentAccount L now w0 = (Inr N, w1)"
  shows "\<exists>(d0::registry) d1 c0 s0 f0 em.
     creds_file w0 = Some c0 \<and> c0 \<noteq> [] \<and> getSubFromCreds L c0 = Some s0 \<and> truthy s0 \<and>
     (\<forall>x \<in> set (accounts d0). \<not> sub_is s0 (snd x)) \<and>
     read_config (getConfigPath L w0) w0 = Some f0 \<and>
     creds_file w1 = Some c0 \<and> config_primary w1 = config_primary w0 \<and>
     config_fallback w1 = config_fallback w0 \<and>
     sequence_file w1 = Some (Some d1) \<and>
     accounts d1 = set_account N \<lparr>email = Some em, sub = stored s0, added = now\<rparr> (accounts d0) \<and>
     activeAccountNumber d1 = Some N \<and>
     credentials_dir w1 = AList.update (creds_name N) (base64_encode L c0) (credentials_dir w0) \<and>
     configs_dir w1 = AList.update (config_name N) f0 (configs_dir w0) \<and>
     getSeqData (initSequenceFile now w0) = Some d0 \<and> N = nextNum d0"
proof -
  let ?w = "initSequenceFile now w0"
  from assms obtain c0 where c0: "creds_file w0 = Some c0" "c0 \<noteq> []"
    by (auto simp: saveCurrentAccount_def Let_def readCurrentCredentials_def init_frame
             split: option.splits if_splits)
  from assms c0 obtain s0 where s0: "getSubFromCreds L c0 = Some s0" "truthy s0"
    by (auto simp: saveCurrentAccount_def Let_def readCurrentCredentials_def init_frame
             split: option.splits if_splits)
  from getSubFromCreds_token[OF s0(1)] obtain token where tok: "getToken L c0 = Some token" by blast
  from assms c0 s0 tok obtain d0 where d0: "getSeqData ?w = Some d0" "\<not> isSaved (Some d0) (Some s0)"
    by (auto simp: saveCurrentAccount_def Let_def readCurrentCredentials_def init_frame
             split: option.splits if_splits)
  from assms c0 s0 tok d0 obtain f0 where f0: "read_config (getConfigPath L w0) w0 = Some f0"
    by (auto simp: saveCurrentAccount_def Let_def readCurrentCredentials_def init_frame
             split: option.splits if_splits)
  have nodup: "find (\<lambda>(k, a). truthy_opt (sub a) \<and> sub_is s0 a) (accounts d0) = None"
    using dup_check_unreachable[OF d0(2) s0(2)] .
  define em where "em = (if truthy_opt (getEmailHintFromCreds L c0) then the (getEmailHintFromCreds L c0)
                         else JStr ''(unknown)'')"
  define d1 where "d1 = d0\<lparr>accounts := set_account (nextNum d0) \<lparr>email = Some em, sub = stored s0, added = now\<rparr> (accounts d0),
                          sequence := sequence d0 @ [nextNum d0],
                          activeAccountNumber := Some (nextNum d0), lastUpdated := now\<rparr>"
  have res: "N = nextNum d0"
    "w1 = (writeBackupConfig (nextNum d0) f0 (writeBackupCreds L (nextNum d0) c0 ?w))\<lparr>sequence_file := Some (Some d1)\<rparr>"
    using assms c0 s0 tok d0 f0 nodup
    by (auto simp: saveCurrentAccount_def Let_def readCurrentCredentials_def init_frame em_def d1_def)
  have nomatch: "\<forall>x \<in> set (accounts d0). \<not> sub_is s0 (snd x)"
    using d0(2) s0(2) by (auto simp: isSaved_iff)
  have "creds_file w1 = Some c0" "config_primary w1 = config_primary w0"
    "config_fallback w1 = config_fallback w0" "sequence_file w1 = Some (Some d1)"
    "accounts d1 = set_account N \<lparr>email = Some em, sub = stored s0, added = now\<rparr> (accounts d0)"
    "activeAccountNumber d1 = Some N"
    "credentials_dir w1 = AList.update (creds_name N) (base64_encode L c0) (credentials_dir w0)"
    "configs_dir w1 = AList.update (config_name N) f0 (configs_dir w0)"
    using c0 by (simp_all add: res d1_def writeBackupConfig_def writeBackupCreds_def init_frame)
  with c0 s0 nomatch f0 d0(1) res(1) show ?thesis
    apply -
    apply (rule exI[of _ d0], rule exI[of _ d1], rule exI[of _ c0], rule exI[of _ s0],
           rule exI[of _ f0], rule exI[of _ em])
    apply (intro conjI)
    apply assumption+
    done
qed


lemma getConfigPath_cong:
  "config_primary w = config_primary w' \<Longrightarrow> getConfigPath L w = getConfigPath L w'"
  by (simp add: getConfigPath_def)

lemma getConfigPath_primary:
  "getConfigPath L w = CLAUDE_CONFIG_PRIMARY \<longleftrightarrow>
     (\<exists>d. readJSON L (config_primary w) = Some d \<and> truthy d \<and> truthy_opt (get_prop d ''oauthAccount''))"
  by (auto simp: getConfigPath_def split: option.splits)

lemma read_config_cong:
  "config_primary w = config_primary w' \<Longrightarrow> config_fallback w = config_fallback w' \<Longrightarrow>
   read_config q w = read_config q w'"
  by (simp add: read_config_def split: cfg_path.splits)

lemma read_config_primary: "read_config CLAUDE_CONFIG_PRIMARY w = config_primary w"
  by (simp add: read_config_def)

lemma update_update_restore:
  "map_of kvs k = Some v \<Longrightarrow> AList.update k v (AList.update k v' kvs) = kvs"
  by (induction kvs) (auto split: if_splits)

text \<open>
  After a save of the identity \<open>s0\<close> under the number \<open>N\<close>, the account resolved as
  current is \<open>N\<close>: by its \<open>sub\<close>, or by the stored number the save has set.
\<close>

lemma currentNum_after_save:
  assumes "creds_file w = Some c0" and "c0 \<noteq> []" and "getSubFromCreds L c0 = Some s0"
    and "\<forall>x \<in> set al. \<not> sub_is s0 (snd x)"
    and "accounts d = set_account N r al" and "activeAccountNumber d = Some N"
  shows "currentNum L d w = Some N"
proof -
  have tr: "truthy s0" using getSubFromCreds_truthy[OF assms(3)] .
  have "\<forall>x \<in> set al. \<not> (case x of (k, a) \<Rightarrow> sub_is s0 a)"
    using assms(4) by auto
  from find_set_account[OF this, of N r]
  have "find (\<lambda>(k, a). sub_is s0 a) (accounts d) = (if sub_is s0 r then Some (N, r) else None)"
    by (simp add: assms(5))
  then show ?thesis
    using assms(1,2,3,6) tr
    by (simp add: currentNum_def readCurrentCredentials_def truthy_opt_def)
qed

text \<open>
  A live credential whose \<open>sub\<close> is not that of the record \<open>N\<close> does not resolve to \<open>N\<close>,
  when the stored number is another one.
\<close>

lemma currentNum_other:
  assumes "creds_file w = Some cM"
    and "\<forall>sM. getSubFromCreds L cM = Some sM \<longrightarrow> \<not> sub_is sM r"
    and "accounts d = set_account N r al"
    and "activeAccountNumber d = Some M" and "M \<noteq> N"
  shows "currentNum L d w \<noteq> Some N"
proof -
  have "K \<noteq> N" if "find (\<lambda>(k, a). sub_is sM a) (accounts d) = Some (K, a)"
    and "getSubFromCreds L cM = Some sM" for sM K a
  proof
    assume "K = N"
    with find_Some_set[OF that(1)] have "(N, a) \<in> set (accounts d)" "sub_is sM a" by auto
    with assms(3) have "a = r" by (simp add: set_account_entries)
    with \<open>sub_is sM a\<close> assms(2) that(2) show False by blast
  qed
  then show ?thesis
    using assms(1,4,5)
    by (auto simp: currentNum_def readCurrentCredentials_def truthy_opt_def Let_def
             split: option.splits if_splits)
qed


text \<open>
  Claim C1, as amended. Let \<open>saveCurrentAccount\<close> return \<open>N\<close>, let a switch to another
  saved account \<open>M\<close> succeed, and then a switch to \<open>N\<close>. Let the credential archived for
  \<open>M\<close> not resolve to the \<open>sub\<close> the save recorded for \<open>N\<close>, and let the library decode the
  base64 text of the live credential back to it and parse the config text written by the
  first switch back to the document it prints. Then the live credential file holds its
  text from before the save; the live config file holds the text \<open>JSON.stringify\<close> prints
  for the document it held before the save (the same \<open>oauthAccount\<close>, every key and value
  as before), which reads back as that document when parsing inverts printing there; the
  other config file has not changed.
\<close>

theorem save_switch_switch_round_trip:
  assumes save: "saveCurrentAccount L now0 w0 = (Inr N, w1)"
    and sw1: "switchToAccount L now1 M w1 = (Inr u1, w2)" and MN: "M \<noteq> N"
    and sw2: "switchToAccount L now2 N w2 = (Inr u2, w3)"
    and c0: "creds_file w0 = Some c0" and s0: "getSubFromCreds L c0 = Some s0"
    and cM: "readBackupCreds L M w0 = Some cM"
    and other: "\<forall>sM. getSubFromCreds L cM = Some sM \<longrightarrow> \<not> strict_eq s0 sM"
    and b64: "base64_decode L (base64_encode L c0) = c0"
    and cfg0: "readJSON L (read_config (getConfigPath L w0) w0) = Some (JObj kvs0)"
    and cfgM: "Option.bind (readBackupConfig M w0) (JSON_parse L) = Some dM"
      "get_prop dM ''oauthAccount'' = Some oauthM"
    and rt: "JSON_parse L (JSON_stringify L (JObj (AList.update ''oauthAccount'' oauthM kvs0))) =
               Some (JObj (AList.update ''oauthAccount'' oauthM kvs0))"
  shows "creds_file w3 = creds_file w0 \<and>
         read_config (getConfigPath L w0) w3 = Some (JSON_stringify L (JObj kvs0)) \<and>
         (\<forall>q. q \<noteq> getConfigPath L w0 \<longrightarrow> read_config q w3 = read_config q w0) \<and>
         (JSON_parse L (JSON_stringify L (JObj kvs0)) = Some (JObj kvs0) \<longrightarrow>
            getConfigPath L w3 = getConfigPath L w0 \<and>
            readJSON L (read_config (getConfigPath L w3) w3) =
              readJSON L (read_config (getConfigPath L w0) w0))"
proof -
  let ?p = "getConfigPath L w0"
  let ?oa = "''oauthAccount''"
  let ?D1 = "JObj (AList.update ?oa oauthM kvs0)"
  \<comment> \<open>the save\<close>
  from save_success[OF save] c0 s0 obtain d0 :: registry and d1 f0 em where
    sv: "c0 \<noteq> []" "truthy s0" "\<forall>x \<in> set (accounts d0). \<not> sub_is s0 (snd x)"
      "read_config ?p w0 = Some f0"
      "creds_file w1 = Some c0" "config_primary w1 = config_primary w0"
      "config_fallback w1 = config_fallback w0" "sequence_file w1 = Some (Some d1)"
      "accounts d1 = set_account N \<lparr>email = Some em, sub = stored s0, added = now0\<rparr> (accounts d0)"
      "activeAccountNumber d1 = Some N"
      "credentials_dir w1 = AList.update (creds_name N) (base64_encode L c0) (credentials_dir w0)"
      "configs_dir w1 = AList.update (config_name N) f0 (configs_dir w0)"
    by auto
  let ?r = "\<lparr>email = Some em, sub = stored s0, added = now0\<rparr>"
  have parse0: "JSON_parse L f0 = Some (JObj kvs0)"
    using cfg0 sv(4) by (simp add: readJSON_def)
  have p1: "getConfigPath L w1 = ?p" using getConfigPath_cong[OF sv(6)] .
  have rc1: "read_config q w1 = read_config q w0" for q
    using read_config_cong[OF sv(6,7)] .
  have recN: "map_of (accounts d1) N = Some ?r"
    by (simp add: sv(9) map_of_set_account)
  have seq1: "getSeqData w1 = Some d1" by (simp add: getSeqData_def sv(8))
  have cur1: "currentNum L d1 w1 = Some N"
    using currentNum_after_save[OF sv(5) sv(1) s0 sv(3) sv(9,10)] .
  \<comment> \<open>the switch to M\<close>
  from switch_success[OF sw1] seq1 p1 cur1 obtain v1 where
    keyM: "map_of (accounts d1) M \<noteq> None"
    and bk1: "backupCurrent L d1 ?p (Some N) w1 = Inr v1"
    and inst1: "installTarget L now1 M d1 ?p v1 = (Inr u1, w2)"
    by auto
  have rcv1: "read_config q v1 = read_config q w0" for q
    using backupCurrent_live_files(5)[OF bk1] rc1 by simp
  have archN1: "map_of (credentials_dir v1) (creds_name N) = Some (base64_encode L c0)"
    "map_of (configs_dir v1) (config_name N) = Some f0"
    using backupCurrent_credentials_dir[OF bk1, of "creds_name N"]
      backupCurrent_configs_dir[OF bk1, of "config_name N"] recN sv(1,4,5) rc1
    by simp_all
  have archM1: "readBackupCreds L M v1 = Some cM"
    "readBackupConfig M v1 = readBackupConfig M w0"
    using backupCurrent_other_archive[OF bk1, of M] MN cM
    by (simp_all add: readBackupCreds_def readBackupConfig_def sv(11,12) update_conv')
  from install_success_files[OF inst1 keyM] archM1 cfgM obtain
    tr_oauthM: "truthy oauthM"
    and w2: "creds_file w2 = Some cM"
      "read_config ?p w2 = Some (JSON_stringify L
                     (set_prop (if truthy_opt (readJSON L (read_config ?p v1))
                                then the (readJSON L (read_config ?p v1)) else JObj [])
                        ?oa oauthM))"
      "\<forall>q. q \<noteq> ?p \<longrightarrow> read_config q w2 = read_config q v1"
      "sequence_file w2 = Some (Some (d1\<lparr>activeAccountNumber := Some M, lastUpdated := now1\<rparr>))"
    by auto
  let ?d2 = "d1\<lparr>activeAccountNumber := Some M, lastUpdated := now1\<rparr>"
  have live2: "read_config ?p w2 = Some (JSON_stringify L ?D1)"
    using w2(2) cfg0 by (simp add: rcv1 truthy_opt_def)
  have other2: "read_config q w2 = read_config q w0" if "q \<noteq> ?p" for q
    using w2(3) that rcv1 by simp
  have archN2: "map_of (credentials_dir w2) (creds_name N) = Some (base64_encode L c0)"
    "map_of (configs_dir w2) (config_name N) = Some f0"
    using install_keeps_archive[of d1 N L now1 M ?p v1] recN inst1 archN1 by simp_all
  have seq2: "getSeqData w2 = Some ?d2" by (simp add: getSeqData_def w2(4))
  have p2: "getConfigPath L w2 = ?p"
  proof (cases ?p)
    case CLAUDE_CONFIG_PRIMARY
    then have "readJSON L (config_primary w2) = Some ?D1"
      using live2 rt by (simp add: read_config_def readJSON_def)
    moreover have "truthy_opt (get_prop ?D1 ?oa)"
      using tr_oauthM by (simp add: update_conv' truthy_opt_def)
    ultimately have "getConfigPath L w2 = CLAUDE_CONFIG_PRIMARY"
      unfolding getConfigPath_primary by simp
    then show ?thesis using CLAUDE_CONFIG_PRIMARY by simp
  next
    case CLAUDE_CONFIG_FALLBACK
    then have "config_primary w2 = config_primary w0"
      using other2[of CLAUDE_CONFIG_PRIMARY] by (simp add: read_config_primary)
    then show ?thesis using getConfigPath_cong by blast
  qed
  have cur2: "currentNum L ?d2 w2 \<noteq> Some N"
  proof (rule currentNum_other[OF w2(1) _ _ _ MN])
    show "\<forall>sM. getSubFromCreds L cM = Some sM \<longrightarrow> \<not> sub_is sM ?r"
      using other by (auto simp: sub_is_def stored_def split: json.splits)
    show "accounts ?d2 = set_account N ?r (accounts d0)" by (simp add: sv(9))
    show "activeAccountNumber ?d2 = Some M" by simp
  qed
  \<comment> \<open>the switch back to N\<close>
  from switch_success[OF sw2] seq2 p2 obtain v2 where
    keyN: "map_of (accounts ?d2) N \<noteq> None"
    and bk2: "backupCurrent L ?d2 ?p (currentNum L ?d2 w2) w2 = Inr v2"
    and inst2: "installTarget L now2 N ?d2 ?p v2 = (Inr u2, w3)"
    by auto
  have rcv2: "read_config q v2 = read_config q w2" for q
    using backupCurrent_live_files(5)[OF bk2] .
  have archN3: "readBackupCreds L N v2 = Some c0" "readBackupConfig N v2 = Some f0"
    using backupCurrent_other_archive[OF bk2 cur2] archN2 b64
    by (simp_all add: readBackupCreds_def readBackupConfig_def)
  from install_success_files[OF inst2 keyN] archN3 parse0 obtain oauth0 where
    o0: "map_of kvs0 ?oa = Some oauth0" "truthy oauth0"
    and w3: "creds_file w3 = Some c0"
      "read_config ?p w3 = Some (JSON_stringify L
                     (set_prop (if truthy_opt (readJSON L (read_config ?p v2))
                                then the (readJSON L (read_config ?p v2)) else JObj [])
                        ?oa oauth0))"
      "\<forall>q. q \<noteq> ?p \<longrightarrow> read_config q w3 = read_config q v2"
    by auto
  have "readJSON L (read_config ?p v2) = Some ?D1"
    using live2 rt by (simp add: rcv2 readJSON_def)
  then have live3: "read_config ?p w3 = Some (JSON_stringify L (JObj kvs0))"
    using w3(2) update_update_restore[OF o0(1), of oauthM] by (simp add: truthy_opt_def)
  have other3: "read_config q w3 = read_config q w0" if "q \<noteq> ?p" for q
    using w3(3) that rcv2 other2 by simp
  have reads_back: "getConfigPath L w3 = ?p \<and>
              readJSON L (read_config (getConfigPath L w3) w3) = readJSON L (read_config ?p w0)"
    if rt0: "JSON_parse L (JSON_stringify L (JObj kvs0)) = Some (JObj kvs0)"
  proof -
    have p3: "getConfigPath L w3 = ?p"
    proof (cases ?p)
      case CLAUDE_CONFIG_PRIMARY
      then have "readJSON L (config_primary w3) = Some (JObj kvs0)"
        using live3 rt0 by (simp add: read_config_def readJSON_def)
      moreover have "truthy_opt (get_prop (JObj kvs0) ?oa)"
        using o0 by (simp add: truthy_opt_def)
      ultimately have "getConfigPath L w3 = CLAUDE_CONFIG_PRIMARY"
        unfolding getConfigPath_primary by simp
      then show ?thesis using CLAUDE_CONFIG_PRIMARY by simp
    next
      case CLAUDE_CONFIG_FALLBACK
      then have "config_primary w3 = config_primary w0"
        using other3[of CLAUDE_CONFIG_PRIMARY] by (simp add: read_config_primary)
      then show ?thesis using getConfigPath_cong by blast
    qed
    then show ?thesis using live3 rt0 cfg0 by (simp add: readJSON_def)
  qed
  from w3(1) c0 live3 other3 reads_back show ?thesis by auto
qed


lemmas world_simps =
  fresh_world_def fresh_saved_def fresh_away_def fresh_back_def
  polluted_world_def polluted_saved_def polluted_away_def polluted_back_def

lemma fresh_steps:
  "saveCurrentAccount example_lib ''2025-06-01T10:00:00Z'' fresh_world = (Inr 2, fresh_saved)"
  "switchToAccount example_lib ''2025-06-01T10:00:00Z'' 1 fresh_saved = (Inr (), fresh_away)"
  "switchToAccount example_lib ''2025-06-01T10:00:00Z'' 2 fresh_away = (Inr (), fresh_back)"
  by (simp_all add: world_simps swap_simps store_simps resolver_simps example_simps)

lemma polluted_steps:
  "saveCurrentAccount example_lib ''2025-06-01T10:00:00Z'' polluted_world = (Inr 2, polluted_saved)"
  "switchToAccount example_lib ''2025-06-01T10:00:00Z'' 1 polluted_saved = (Inr (), polluted_away)"
  "switchToAccount example_lib ''2025-06-01T10:00:00Z'' 2 polluted_away = (Inr (), polluted_back)"
  by (simp_all add: world_simps swap_simps store_simps resolver_simps example_simps)


theorem save_switch_switch_round_trip_witness:
  "saveCurrentAccount example_lib ''2025-06-01T10:00:00Z'' fresh_world = (Inr 2, fresh_saved) \<and>
   switchToAccount example_lib ''2025-06-01T10:00:00Z'' 1 fresh_saved = (Inr (), fresh_away) \<and>
   switchToAccount example_lib ''2025-06-01T10:00:00Z'' 2 fresh_away = (Inr (), fresh_back) \<and>
   getSubFromCreds example_lib creds_B = Some (JStr ''B'') \<and>
   readBackupCreds example_lib 1 fresh_world = Some creds_A \<and>
   getSubFromCreds example_lib creds_A = Some (JStr ''A'') \<and>
   creds_file fresh_world = Some creds_B \<and>
   creds_file fresh_back = creds_file fresh_world \<and>
   readJSON example_lib (read_config (getConfigPath example_lib fresh_world) fresh_world) = Some doc_B \<and>
   read_config (getConfigPath example_lib fresh_world) fresh_back = Some (JSON_stringify example_lib doc_B) \<and>
   readJSON example_lib (read_config (getConfigPath example_lib fresh_back) fresh_back) =
     readJSON example_lib (read_config (getConfigPath example_lib fresh_world) fresh_world)"
proof -
  let ?kvs = "[(''oauthAccount'', JObj [(''emailAddress'', JStr ''b@x.io'')]), (''theme'', JStr ''light'')]"
  let ?oauthA = "JObj [(''emailAddress'', JStr ''a@x.io'')]"
  have ne: "(1::nat) \<noteq> 2" by simp
  have c0: "creds_file fresh_world = Some creds_B" by (simp add: fresh_world_def)
  have s0: "getSubFromCreds example_lib creds_B = Some (JStr ''B'')"
    by (simp add: resolver_simps example_simps)
  have cM: "readBackupCreds example_lib 1 fresh_world = Some creds_A"
    by (simp add: fresh_world_def store_simps example_simps)
  have sM: "getSubFromCreds example_lib creds_A = Some (JStr ''A'')"
    by (simp add: resolver_simps example_simps)
  then have other: "\<forall>sM. getSubFromCreds example_lib creds_A = Some sM \<longrightarrow> \<not> strict_eq (JStr ''B'') sM"
    by simp
  have b64: "base64_decode example_lib (base64_encode example_lib creds_B) = creds_B"
    by (simp add: example_simps)
  have cfg0: "readJSON example_lib (read_config (getConfigPath example_lib fresh_world) fresh_world) =
      Some (JObj ?kvs)"
    by (simp add: fresh_world_def store_simps resolver_simps example_simps)
  have cfgM: "Option.bind (readBackupConfig 1 fresh_world) (JSON_parse example_lib) = Some doc_A"
    "get_prop doc_A ''oauthAccount'' = Some ?oauthA"
    by (simp_all add: fresh_world_def store_simps example_simps)
  have rt: "JSON_parse example_lib (JSON_stringify example_lib (JObj (AList.update ''oauthAccount'' ?oauthA ?kvs))) =
      Some (JObj (AList.update ''oauthAccount'' ?oauthA ?kvs))"
    "JSON_parse example_lib (JSON_stringify example_lib (JObj ?kvs)) = Some (JObj ?kvs)"
    by (simp_all add: example_simps)
  note t = save_switch_switch_round_trip[OF fresh_steps(1) fresh_steps(2) ne fresh_steps(3)
      c0 s0 cM other b64 cfg0 cfgM rt(1)]
  have docB: "doc_B = JObj ?kvs" by (simp add: doc_B_def)
  from t rt(2) have
    "creds_file fresh_back = creds_file fresh_world"
    "read_config (getConfigPath example_lib fresh_world) fresh_back = Some (JSON_stringify example_lib (JObj ?kvs))"
    "readJSON example_lib (read_config (getConfigPath example_lib fresh_back) fresh_back) =
     readJSON example_lib (read_config (getConfigPath example_lib fresh_world) fresh_world)"
    by blast+
  with fresh_steps s0 cM sM c0 cfg0 docB show ?thesis by simp
qed

text \<open>
  The claim as stated fails in \<open>polluted_world\<close>: the archive of account 1 holds a
  credential of the subject \<open>B\<close>, the subject that is live and gets saved as account 2.
  After the switch to 1 that credential is live, so the switch back to 2 resolves the
  current account to 2 itself and archives the live files over the ones the save stored,
  before it installs them. All three calls succeed, and the live credential text and the
  live \<open>oauthAccount\<close> differ from those before the save.
\<close>

theorem save_switch_switch_counterexample:
  "saveCurrentAccount example_lib ''2025-06-01T10:00:00Z'' polluted_world = (Inr 2, polluted_saved) \<and>
   switchToAccount example_lib ''2025-06-01T10:00:00Z'' 1 polluted_saved = (Inr (), polluted_away) \<and>
   switchToAccount example_lib ''2025-06-01T10:00:00Z'' 2 polluted_away = (Inr (), polluted_back) \<and>
   creds_file polluted_world = Some creds_B2 \<and>
   creds_file polluted_back = Some creds_B \<and>
   creds_B \<noteq> creds_B2 \<and>
   readJSON example_lib (read_config (getConfigPath example_lib polluted_world) polluted_world) = Some doc_A \<and>
   readJSON example_lib (read_config (getConfigPath example_lib polluted_back) polluted_back) = Some doc_AB \<and>
   get_prop doc_AB ''oauthAccount'' \<noteq> get_prop doc_A ''oauthAccount''"
proof -
  have "creds_file polluted_world = Some creds_B2" "creds_file polluted_back = Some creds_B"
    "creds_B \<noteq> creds_B2"
    "readJSON example_lib (read_config (getConfigPath example_lib polluted_world) polluted_world) = Some doc_A"
    "readJSON example_lib (read_config (getConfigPath example_lib polluted_back) polluted_back) = Some doc_AB"
    "get_prop doc_AB ''oauthAccount'' \<noteq> get_prop doc_A ''oauthAccount''"
    by (simp_all add: world_simps store_simps resolver_simps example_simps)
  with polluted_steps show ?thesis by simp
qed

subsection \<open>Numbers of saved accounts\<close>

text \<open>
  Claim C7, as amended. \<open>nextNum\<close> is 1 when \<open>accounts\<close> is empty. When every key is
  below \<open>2^53\<close>, \<open>nextNum\<close> is one more than the greatest key, and it is not a key. A
  successful save that read a registry with every key below \<open>2^53\<close> returns the \<open>nextNum\<close>
  of that registry, a number that was not a key of it, and leaves the keys of that
  registry with this one number added.
\<close>

theorem nextNum_max_fresh:
  "(accounts data = [] \<longrightarrow> nextNum data = 1) \<and>
   ((\<forall>k \<in> fst ` set (accounts data). k < 2 ^ 53) \<longrightarrow>
      nextNum data = (if accounts data = [] then 1 else Max (set (map fst (accounts data))) + 1) \<and>
      nextNum data \<notin> set (map fst (accounts data))) \<and>
   (saveCurrentAccount L now w = (Inr N, w') \<and> getSeqData (initSequenceFile now w) = Some d \<and>
    (\<forall>k \<in> fst ` set (accounts d). k < 2 ^ 53) \<longrightarrow>
      N = nextNum d \<and> N \<notin> fst ` set (accounts d) \<and>
      (\<exists>d'. getSeqData w' = Some d' \<and>
            fst ` set (accounts d') = insert N (fst ` set (accounts d))))"
proof -
  have empty: "nextNum data = 1" if "accounts data = []"
    using that by (simp add: nextNum_def)
  have formula: "nextNum data = (if accounts data = [] then 1 else Max (set (map fst (accounts data))) + 1)"
    and fresh: "nextNum data \<notin> set (map fst (accounts data))"
    if "\<forall>k \<in> fst ` set (accounts data). k < 2 ^ 53"
    using nextNum_exact[OF that] nextNum_fresh_key[OF that] by simp_all
  have saved: "N = nextNum d \<and> N \<notin> fst ` set (accounts d) \<and>
      (\<exists>d'. getSeqData w' = Some d' \<and>
            fst ` set (accounts d') = insert N (fst ` set (accounts d)))"
    if run: "saveCurrentAccount L now w = (Inr N, w')"
      and read: "getSeqData (initSequenceFile now w) = Some d"
      and safe: "\<forall>k \<in> fst ` set (accounts d). k < 2 ^ 53"
  proof -
    from save_success[OF run] obtain d0 :: registry and d' r where
      h: "sequence_file w' = Some (Some d')"
        "accounts d' = set_account N r (accounts d0)"
        "getSeqData (initSequenceFile now w) = Some d0" "N = nextNum d0"
      by blast
    from h(3) read have same: "d0 = d" by simp
    have "getSeqData w' = Some d'" by (simp add: getSeqData_def h(1))
    moreover have "fst ` set (accounts d') = insert N (fst ` set (accounts d))"
      using h(2) by (simp add: same set_account_keys)
    moreover have "N \<notin> fst ` set (accounts d)"
      using nextNum_fresh_key[OF safe] h(4) by (simp add: same)
    ultimately show ?thesis using h(4) same by blast
  qed
  from empty formula fresh saved show ?thesis by blast
qed

theorem nextNum_max_fresh_witness:
  "saveCurrentAccount example_lib ''2025-06-01T10:00:00Z'' fresh_world = (Inr 2, fresh_saved) \<and>
   getSeqData (initSequenceFile ''2025-06-01T10:00:00Z'' fresh_world) = Some registry_A \<and>
   getSeqData fresh_saved = Some (registry_AB (Some 2)) \<and>
   fst ` set (accounts registry_A) = {1} \<and>
   nextNum registry_A = 2 \<and>
   fst ` set (accounts (registry_AB (Some 2))) = {1, 2}"
proof -
  have e: "getSeqData (initSequenceFile ''2025-06-01T10:00:00Z'' fresh_world) = Some registry_A"
    "getSeqData fresh_saved = Some (registry_AB (Some 2))"
    "fst ` set (accounts registry_A) = {1}"
    by (simp_all add: world_simps getSeqData_def initSequenceFile_def registry_A_def)
  have safe: "\<forall>k \<in> fst ` set (accounts registry_A). k < 2 ^ 53"
    by (simp add: e(3))
  have "saveCurrentAccount example_lib ''2025-06-01T10:00:00Z'' fresh_world = (Inr 2, fresh_saved) \<and>
        getSeqData (initSequenceFile ''2025-06-01T10:00:00Z'' fresh_world) = Some registry_A \<and>
        (\<forall>k \<in> fst ` set (accounts registry_A). k < 2 ^ 53)"
    using fresh_steps(1) e(1) safe by blast
  from nextNum_max_fresh[THEN conjunct2, THEN conjunct2, THEN mp, OF this] e(2)
  have "2 = nextNum registry_A \<and> 2 \<notin> fst ` set (accounts registry_A) \<and>
        fst ` set (accounts (registry_AB (Some 2))) = insert 2 (fst ` set (accounts registry_A))"
    by auto
  moreover from nextNum_max_fresh[of registry_A, THEN conjunct2, THEN conjunct1, THEN mp, OF safe]
  have "nextNum registry_A \<notin> set (map fst (accounts registry_A))" by blast
  ultimately show ?thesis using fresh_steps(1) e by auto
qed

text \<open>The sum \<open>2^53 + 1\<close> lies in the middle between two doubles.\<close>

lemma bit_length_tie: "bit_length 9007199254740993 = 54"
  by (simp add: bit_length.simps)

lemma nearest_double_tie: "nearest_double 9007199254740993 = 9007199254740992"
  by (simp add: nearest_double_def bit_length_tie)

text \<open>
  The claim as stated fails at the first number that has no successor among the doubles:
  with the key \<open>9007199254740992\<close> (\<open>2^53\<close>) in the registry, \<open>Math.max(...) + 1\<close> is
  \<open>9007199254740992\<close> again, and the save of another identity returns this number and
  replaces the record of the account that had it.
\<close>

theorem nextNum_counterexample:
  "fst ` set (accounts registry_big) = {9007199254740992} \<and>
   nextNum registry_big = 9007199254740992 \<and>
   getSeqData big_world = Some registry_big \<and>
   fst (saveCurrentAccount example_lib ''2025-06-01T10:00:00Z'' big_world) = Inr 9007199254740992 \<and>
   map_of (accounts registry_big) 9007199254740992 = Some (record_of ''A'') \<and>
   Option.bind (getSeqData (snd (saveCurrentAccount example_lib ''2025-06-01T10:00:00Z'' big_world)))
     (\<lambda>d. map_of (accounts d) 9007199254740992) = Some (record_of ''B'')"
  by (simp add: registry_big_def big_world_def fresh_world_def swap_simps store_simps resolver_simps
                example_simps nearest_double_tie)

end
